theory Spec2Isabelle
  imports Complex_Main "HOL-Library.Sublist" "HOL-Library.AList"
begin

section \<open>Data model\<close>

text \<open>
  A Python \<open>str\<close> is a sequence of Unicode code points, so it is modelled as a list of
  natural numbers (one per code point), not as a list of bytes. The Korean literals of
  \<open>main.py\<close> are written out code point by code point.
\<close>

type_synonym ustring = "nat list"

text \<open>The exceptions that the modelled lines can raise.\<close>

datatype py_error =
    KeyError
  | ValueError
  | TypeError
  | NotADirectoryError
  | ReadError

text \<open>
  A number held in a table is a float: a finite value or NaN (a missing value). Finite
  values are represented by rationals; the comparison of two finite floats is the order of
  the rationals, and every comparison with NaN is false. Timestamps and booleans are
  represented by their numeric value.
\<close>

datatype num = Fin rat | NaN

datatype cell = Number num | Text ustring

text \<open>
  A \<open>DataFrame\<close> is column oriented: it has a row index, of which only the length
  matters here (\<open>len(df)\<close>), and an ordered collection of named columns. The parsers
  give every column a name of its own.
\<close>

record table =
  nrows :: nat
  columns :: "(ustring \<times> cell list) list"

text \<open>
  A Python \<open>dict\<close> keeps its keys in insertion order, and assigning to an existing key keeps
  the key's position: an association list updated with \<open>AList.update\<close>.
\<close>

type_synonym frames = "(ustring \<times> table) list"

record school =
  ec_target :: rat
  color :: ustring

type_synonym info = "(ustring \<times> school) list"

text \<open>
  An entry of the data directory: its name, what \<open>pd.read_csv\<close> returns (or raises) on it,
  and what \<open>pd.ExcelFile\<close> finds in it: the sheets in workbook order, each with what
  \<open>pd.read_excel\<close> returns (or raises) for it.
\<close>

record entry =
  name :: ustring
  csv :: "py_error + table"
  xlsx :: "py_error + (ustring \<times> (py_error + table)) list"

datatype path = Absent | NotADirectory | Directory "entry list"

subsection \<open>String constants of the script\<close>

definition songdo :: ustring where "songdo = [49569, 46020, 44256]"
definition haneul :: ustring where "haneul = [54616, 45720, 44256]"
definition ara :: ustring where "ara = [50500, 46972, 44256]"
definition dongsan :: ustring where "dongsan = [46041, 49328, 44256]"

text \<open>The selection \<open>"all"\<close> of the sidebar (two code points).\<close>

definition sel_all :: ustring where "sel_all = [51204, 52404]"

definition ext_csv :: ustring where "ext_csv = [46, 99, 115, 118]"
definition ext_xlsx :: ustring where "ext_xlsx = [46, 120, 108, 115, 120]"

definition col_time :: ustring where "col_time = [116, 105, 109, 101]"
definition col_school :: ustring where "col_school = [115, 99, 104, 111, 111, 108]"
definition col_temperature :: ustring where
  "col_temperature = [116, 101, 109, 112, 101, 114, 97, 116, 117, 114, 101]"
definition col_humidity :: ustring where
  "col_humidity = [104, 117, 109, 105, 100, 105, 116, 121]"
definition col_ph :: ustring where "col_ph = [112, 104]"
definition col_ec :: ustring where "col_ec = [101, 99]"

text \<open>Fresh weight (g), leaf count, shoot length (mm).\<close>

definition col_weight :: ustring where
  "col_weight = [49373, 51473, 47049, 40, 103, 41]"
definition col_leaves :: ustring where
  "col_leaves = [51086, 32, 49688, 40, 51109, 41]"
definition col_height :: ustring where
  "col_height = [51648, 49345, 48512, 32, 44600, 51060, 40, 109, 109, 41]"

text \<open>The literal \<open>"2.0 (<haneul>)"\<close> of the fourth overview metric.\<close>

definition optimal_ec_text :: ustring where
  "optimal_ec_text = [50, 46, 48, 32, 40, 54616, 45720, 44256, 41]"

text \<open>Colours \<open>#AB63FA\<close>, \<open>#00CC96\<close>, \<open>#FFA15A\<close>, \<open>#EF553B\<close>.\<close>

definition school_info :: info where
  "school_info =
     [(songdo, \<lparr>ec_target = 1, color = [35, 65, 66, 54, 51, 70, 65]\<rparr>),
      (haneul, \<lparr>ec_target = 2, color = [35, 48, 48, 67, 67, 57, 54]\<rparr>),
      (ara, \<lparr>ec_target = 4, color = [35, 70, 70, 65, 49, 53, 65]\<rparr>),
      (dongsan, \<lparr>ec_target = 8, color = [35, 69, 70, 53, 53, 51, 66]\<rparr>)]"

text \<open>\<open>school_info.keys()\<close>, in insertion order.\<close>

definition labels :: "ustring list" where
  "labels = map fst school_info"

section \<open>Library operations on tables\<close>

text \<open>\<open>df[c]\<close>: the column, or \<open>KeyError\<close>.\<close>

definition getitem :: "table \<Rightarrow> ustring \<Rightarrow> py_error + cell list" where
  "getitem df c = (case map_of (columns df) c of None \<Rightarrow> Inl KeyError | Some vs \<Rightarrow> Inr vs)"

text \<open>\<open>d[k]\<close> on a dict: the value, or \<open>KeyError\<close>.\<close>

definition lookup :: "(ustring \<times> 'v) list \<Rightarrow> ustring \<Rightarrow> py_error + 'v" where
  "lookup d k = (case map_of d k of None \<Rightarrow> Inl KeyError | Some v \<Rightarrow> Inr v)"

text \<open>
  \<open>df.assign(school=s)\<close>: a new table in which the column holds \<open>s\<close> in every row; an
  existing column of that name is replaced where it stands, a new one is added last.
\<close>

definition assign :: "ustring \<Rightarrow> cell \<Rightarrow> table \<Rightarrow> table" where
  "assign c v df = df\<lparr>columns := AList.update c (replicate (nrows df) v) (columns df)\<rparr>"

text \<open>The first occurrences of a list, in order.\<close>

definition uniq :: "'a list \<Rightarrow> 'a list" where
  "uniq xs = rev (remdups (rev xs))"

text \<open>The values a table contributes to column \<open>c\<close> of a concatenation: NaN where it has no such column.\<close>

definition column_or_nan :: "ustring \<Rightarrow> table \<Rightarrow> cell list" where
  "column_or_nan c df =
     (case map_of (columns df) c of
        None \<Rightarrow> replicate (nrows df) (Number NaN)
      | Some vs \<Rightarrow> vs)"

text \<open>
  \<open>pd.concat(dfs)\<close>: rows stacked in list order, columns the union of all columns in order of
  first appearance. An empty list raises \<open>ValueError\<close>.
\<close>

definition concat_frames :: "table list \<Rightarrow> py_error + table" where
  "concat_frames dfs =
     (if dfs = [] then Inl ValueError
      else Inr \<lparr>nrows = sum_list (map nrows dfs),
                columns = map (\<lambda>c. (c, concat (map (column_or_nan c) dfs)))
                              (uniq (concat (map (\<lambda>df. map fst (columns df)) dfs)))\<rparr>)"

section \<open>\<open>load_data\<close>\<close>

text \<open>
  Two library functions are parameters of the loader: \<open>nfc\<close> is
  \<open>unicodedata.normalize('NFC', _)\<close> and \<open>to_datetime\<close> is \<open>pd.to_datetime\<close> on a column.
  The decorator \<open>st.cache_data\<close> replays the result and the messages of the first call, so
  a run sees what an uncached call would give.
\<close>

text \<open>\<open>df['time'] = pd.to_datetime(df['time'])\<close>\<close>

definition coerce_time :: "(cell list \<Rightarrow> py_error + cell list) \<Rightarrow> table \<Rightarrow> py_error + table" where
  "coerce_time to_datetime df =
     (case getitem df col_time of
        Inl e \<Rightarrow> Inl e
      | Inr vs \<Rightarrow>
          (case to_datetime vs of
             Inl e \<Rightarrow> Inl e
           | Inr ts \<Rightarrow> Inr (df\<lparr>columns := AList.update col_time ts (columns df)\<rparr>)))"

text \<open>The body of \<open>if school in norm_name\<close> for a \<open>.csv\<close> entry: the table stored under the label.\<close>

definition read_env :: "(cell list \<Rightarrow> py_error + cell list) \<Rightarrow> entry \<Rightarrow> py_error + table" where
  "read_env to_datetime file =
     (case csv file of Inl e \<Rightarrow> Inl e | Inr df \<Rightarrow> coerce_time to_datetime df)"

text \<open>The loop \<open>for school in school_info.keys()\<close> of a \<open>.csv\<close> entry. It has no \<open>break\<close>.\<close>

fun load_csv :: "(cell list \<Rightarrow> py_error + cell list) \<Rightarrow> entry \<Rightarrow> ustring \<Rightarrow>
    ustring list \<Rightarrow> frames \<Rightarrow> py_error + frames" where
  "load_csv to_datetime file norm_name [] env_data = Inr env_data"
| "load_csv to_datetime file norm_name (school # rest) env_data =
     (if sublist school norm_name then
        (case read_env to_datetime file of
           Inl e \<Rightarrow> Inl e
         | Inr df \<Rightarrow> load_csv to_datetime file norm_name rest (AList.update school df env_data))
      else load_csv to_datetime file norm_name rest env_data)"

text \<open>\<open>pd.read_excel(file, sheet_name=sheet_name)\<close>\<close>

definition read_excel :: "(ustring \<times> (py_error + table)) list \<Rightarrow> ustring \<Rightarrow> py_error + table" where
  "read_excel sheets sheet_name =
     (case map_of sheets sheet_name of None \<Rightarrow> Inl ValueError | Some r \<Rightarrow> r)"

text \<open>The loop over the labels for one sheet. It has no \<open>break\<close> either.\<close>

fun load_sheet :: "(ustring \<times> (py_error + table)) list \<Rightarrow> ustring \<Rightarrow> ustring \<Rightarrow>
    ustring list \<Rightarrow> frames \<Rightarrow> py_error + frames" where
  "load_sheet sheets sheet_name norm_sheet [] growth_data = Inr growth_data"
| "load_sheet sheets sheet_name norm_sheet (school # rest) growth_data =
     (if sublist school norm_sheet then
        (case read_excel sheets sheet_name of
           Inl e \<Rightarrow> Inl e
         | Inr df \<Rightarrow>
             load_sheet sheets sheet_name norm_sheet rest (AList.update school df growth_data))
      else load_sheet sheets sheet_name norm_sheet rest growth_data)"

text \<open>The loop \<open>for sheet_name in xls.sheet_names\<close>.\<close>

fun load_sheets :: "(ustring \<Rightarrow> ustring) \<Rightarrow> (ustring \<times> (py_error + table)) list \<Rightarrow>
    ustring list \<Rightarrow> frames \<Rightarrow> py_error + frames" where
  "load_sheets nfc sheets [] growth_data = Inr growth_data"
| "load_sheets nfc sheets (sheet_name # rest) growth_data =
     (case load_sheet sheets sheet_name (nfc sheet_name) labels growth_data of
        Inl e \<Rightarrow> Inl e
      | Inr g \<Rightarrow> load_sheets nfc sheets rest g)"

text \<open>The loop \<open>for file in data_path.iterdir()\<close>.\<close>

fun load_files :: "(ustring \<Rightarrow> ustring) \<Rightarrow> (cell list \<Rightarrow> py_error + cell list) \<Rightarrow>
    entry list \<Rightarrow> frames \<Rightarrow> frames \<Rightarrow> py_error + (frames \<times> frames)" where
  "load_files nfc to_datetime [] env_data growth_data = Inr (env_data, growth_data)"
| "load_files nfc to_datetime (file # rest) env_data growth_data =
     (let norm_name = nfc (name file) in
      if suffix ext_csv norm_name then
        (case load_csv to_datetime file norm_name labels env_data of
           Inl e \<Rightarrow> Inl e
         | Inr env' \<Rightarrow> load_files nfc to_datetime rest env' growth_data)
      else if suffix ext_xlsx norm_name then
        (case xlsx file of
           Inl e \<Rightarrow> Inl e
         | Inr sheets \<Rightarrow>
             (case load_sheets nfc sheets (map fst sheets) growth_data of
                Inl e \<Rightarrow> Inl e
              | Inr growth' \<Rightarrow> load_files nfc to_datetime rest env_data growth'))
      else load_files nfc to_datetime rest env_data growth_data)"

text \<open>The messages of the two \<open>st.error\<close> calls.\<close>

datatype message = DataFolderNotFound | DataFilesInsufficient

text \<open>
  What \<open>load_data\<close> returns: the pair \<open>(None, None)\<close>, or the triple of the two mappings and
  \<open>school_info\<close>.
\<close>

datatype loaded = NoData | Loaded frames frames info

text \<open>\<open>load_data\<close>: the messages it shows, and what it returns or raises.\<close>

definition load_data :: "(ustring \<Rightarrow> ustring) \<Rightarrow> (cell list \<Rightarrow> py_error + cell list) \<Rightarrow>
    path \<Rightarrow> message list \<times> (py_error + loaded)" where
  "load_data nfc to_datetime data_path =
     (case data_path of
        Absent \<Rightarrow> ([DataFolderNotFound], Inr NoData)
      | NotADirectory \<Rightarrow> ([], Inl NotADirectoryError)
      | Directory files \<Rightarrow>
          ([], case load_files nfc to_datetime files [] [] of
                 Inl e \<Rightarrow> Inl e
               | Inr (env_data, growth_data) \<Rightarrow> Inr (Loaded env_data growth_data school_info)))"

section \<open>The view filter\<close>

text \<open>\<open>[df.assign(school=s) for s, df in d.items()]\<close>\<close>

definition tag_frames :: "frames \<Rightarrow> table list" where
  "tag_frames d = map (\<lambda>(s, df). assign col_school (Text s) df) d"

text \<open>The \<open>if selected_school == "all"\<close> statement that computes \<open>display_env\<close> and \<open>display_growth\<close>.\<close>

definition view_filter :: "frames \<Rightarrow> frames \<Rightarrow> ustring \<Rightarrow> py_error + (table \<times> table)" where
  "view_filter env_dict growth_dict selected_school =
     (if selected_school = sel_all then
        (case concat_frames (tag_frames env_dict) of
           Inl e \<Rightarrow> Inl e
         | Inr display_env \<Rightarrow>
             (case concat_frames (tag_frames growth_dict) of
                Inl e \<Rightarrow> Inl e
              | Inr display_growth \<Rightarrow> Inr (display_env, display_growth)))
      else
        (case lookup env_dict selected_school of
           Inl e \<Rightarrow> Inl e
         | Inr edf \<Rightarrow>
             (case lookup growth_dict selected_school of
                Inl e \<Rightarrow> Inl e
              | Inr gdf \<Rightarrow>
                  Inr (assign col_school (Text selected_school) edf,
                       assign col_school (Text selected_school) gdf))))"

section \<open>Aggregates\<close>

text \<open>The values of a column that are not missing; text in a numeric aggregate raises \<open>TypeError\<close>.\<close>

fun present :: "cell list \<Rightarrow> py_error + rat list" where
  "present [] = Inr []"
| "present (Text s # cs) = Inl TypeError"
| "present (Number NaN # cs) = present cs"
| "present (Number (Fin r) # cs) =
     (case present cs of Inl e \<Rightarrow> Inl e | Inr rs \<Rightarrow> Inr (r # rs))"

text \<open>
  \<open>Series.mean()\<close>: missing values are skipped; the mean of no values is NaN. The sum and
  the quotient are exact here, where the library computes them in double precision: the two
  agree when every value is missing (both give NaN) and whenever the sum and the quotient
  are exactly representable, and may differ by rounding (or by an overflow to infinity)
  otherwise. The
  properties below use a mean at exactly representable values only, or hold for any value
  of it.
\<close>

definition mean :: "cell list \<Rightarrow> py_error + num" where
  "mean vs =
     (case present vs of
        Inl e \<Rightarrow> Inl e
      | Inr rs \<Rightarrow> Inr (if rs = [] then NaN else Fin (sum_list rs / of_nat (length rs))))"

text \<open>\<open>df[c].mean()\<close>\<close>

definition column_mean :: "table \<Rightarrow> ustring \<Rightarrow> py_error + num" where
  "column_mean df c = (case getitem df c of Inl e \<Rightarrow> Inl e | Inr vs \<Rightarrow> mean vs)"

text \<open>\<open>[d[s][c].mean() for s in schools]\<close>\<close>

fun means_of :: "frames \<Rightarrow> ustring \<Rightarrow> ustring list \<Rightarrow> py_error + num list" where
  "means_of d c [] = Inr []"
| "means_of d c (s # rest) =
     (case lookup d s of
        Inl e \<Rightarrow> Inl e
      | Inr df \<Rightarrow>
          (case column_mean df c of
             Inl e \<Rightarrow> Inl e
           | Inr m \<Rightarrow>
               (case means_of d c rest of Inl e \<Rightarrow> Inl e | Inr ms \<Rightarrow> Inr (m # ms))))"

text \<open>\<open>a > b\<close> on floats: false as soon as one side is NaN.\<close>

fun num_gt :: "num \<Rightarrow> num \<Rightarrow> bool" where
  "num_gt (Fin a) (Fin b) = (b < a)"
| "num_gt _ _ = False"

text \<open>
  \<open>max(d, key=d.get)\<close>: the keys are visited in order and the current best is replaced only
  by a key whose value is strictly greater. No key at all raises \<open>ValueError\<close>.
\<close>

fun max_from :: "ustring \<times> num \<Rightarrow> (ustring \<times> num) list \<Rightarrow> ustring \<times> num" where
  "max_from best [] = best"
| "max_from best (kv # rest) =
     (if num_gt (snd kv) (snd best) then max_from kv rest else max_from best rest)"

definition max_key :: "(ustring \<times> num) list \<Rightarrow> py_error + ustring" where
  "max_key d = (case d of [] \<Rightarrow> Inl ValueError | kv # rest \<Rightarrow> Inr (fst (max_from kv rest)))"

text \<open>\<open>{s: df[weight].mean() for s, df in growth_dict.items()}\<close>; the keys of a dict are distinct.\<close>

fun avg_weights :: "frames \<Rightarrow> py_error + (ustring \<times> num) list" where
  "avg_weights [] = Inr []"
| "avg_weights ((s, df) # rest) =
     (case column_mean df col_weight of
        Inl e \<Rightarrow> Inl e
      | Inr m \<Rightarrow>
          (case avg_weights rest of Inl e \<Rightarrow> Inl e | Inr ms \<Rightarrow> Inr ((s, m) # ms)))"

text \<open>What the banner of the growth tab reports: target EC, school, mean fresh weight.\<close>

record banner =
  best_ec :: rat
  best_school :: ustring
  best_mean :: num

definition growth_banner :: "frames \<Rightarrow> info \<Rightarrow> py_error + banner" where
  "growth_banner growth_dict info_dict =
     (case avg_weights growth_dict of
        Inl e \<Rightarrow> Inl e
      | Inr avg \<Rightarrow>
          (case max_key avg of
             Inl e \<Rightarrow> Inl e
           | Inr best \<Rightarrow>
               (case lookup info_dict best of
                  Inl e \<Rightarrow> Inl e
                | Inr i \<Rightarrow>
                    (case lookup avg best of
                       Inl e \<Rightarrow> Inl e
                     | Inr m \<Rightarrow> Inr \<lparr>best_ec = ec_target i, best_school = best, best_mean = m\<rparr>))))"

section \<open>The script\<close>

text \<open>
  What a run puts on the page, in order. Only the elements that depend on the data are
  modelled; titles, captions and the layout are constant. A chart is represented by the
  values handed to the plotting library.
\<close>

datatype element =
    ErrorBox message
  | MetricTotal nat
  | MetricTemperature num
  | MetricHumidity num
  | MetricOptimalEC ustring
  | SummaryTable "(ustring \<times> rat \<times> nat \<times> ustring) list"
  | EnvBars "num list" "num list" "num list" "rat list" "num list"
  | SchoolSeries "cell list" "cell list" "cell list" "cell list" rat
  | EnvExport table
  | BestSchool banner
  | GrowthBars "num list" "num list" "num list" "nat list"
  | GrowthPlots table
  | GrowthExport table

text \<open>A part of the script: the elements it shows, and the exception that ends it, if any.\<close>

type_synonym part = "element list \<times> py_error option"

definition and_then :: "part \<Rightarrow> part \<Rightarrow> part" where
  "and_then p q = (case snd p of Some e \<Rightarrow> p | None \<Rightarrow> (fst p @ fst q, snd q))"

text \<open>The rows of the summary table: \<open>for s, info in info_dict.items()\<close>.\<close>

fun summary_data :: "info \<Rightarrow> frames \<Rightarrow> py_error + (ustring \<times> rat \<times> nat \<times> ustring) list" where
  "summary_data [] growth_dict = Inr []"
| "summary_data ((s, i) # rest) growth_dict =
     (case lookup growth_dict s of
        Inl e \<Rightarrow> Inl e
      | Inr df \<Rightarrow>
          (case summary_data rest growth_dict of
             Inl e \<Rightarrow> Inl e
           | Inr rows \<Rightarrow> Inr ((s, ec_target i, nrows df, color i) # rows)))"

text \<open>Tab 1: the four metrics, then the summary table.\<close>

definition tab1 :: "table \<Rightarrow> table \<Rightarrow> frames \<Rightarrow> info \<Rightarrow> part" where
  "tab1 display_env display_growth growth_dict info_dict =
     (case column_mean display_env col_temperature of
        Inl e \<Rightarrow> ([MetricTotal (nrows display_growth)], Some e)
      | Inr t \<Rightarrow>
          (case column_mean display_env col_humidity of
             Inl e \<Rightarrow> ([MetricTotal (nrows display_growth), MetricTemperature t], Some e)
           | Inr h \<Rightarrow>
               and_then
                 ([MetricTotal (nrows display_growth), MetricTemperature t, MetricHumidity h,
                   MetricOptimalEC optimal_ec_text], None)
                 (case summary_data info_dict growth_dict of
                    Inl e \<Rightarrow> ([], Some e)
                  | Inr rows \<Rightarrow> ([SummaryTable rows], None))))"

text \<open>\<open>[info_dict[s]['ec_target'] for s in schools]\<close>\<close>

fun targets_of :: "info \<Rightarrow> ustring list \<Rightarrow> py_error + rat list" where
  "targets_of info_dict [] = Inr []"
| "targets_of info_dict (s # rest) =
     (case lookup info_dict s of
        Inl e \<Rightarrow> Inl e
      | Inr i \<Rightarrow>
          (case targets_of info_dict rest of Inl e \<Rightarrow> Inl e | Inr ts \<Rightarrow> Inr (ec_target i # ts)))"

text \<open>The bar charts of tab 2.\<close>

definition env_bars :: "frames \<Rightarrow> info \<Rightarrow> py_error + element" where
  "env_bars env_dict info_dict =
     (let schools = map fst info_dict in
      case means_of env_dict col_temperature schools of
        Inl e \<Rightarrow> Inl e
      | Inr avg_temp \<Rightarrow>
      (case means_of env_dict col_humidity schools of
        Inl e \<Rightarrow> Inl e
      | Inr avg_hum \<Rightarrow>
      (case means_of env_dict col_ph schools of
        Inl e \<Rightarrow> Inl e
      | Inr avg_ph \<Rightarrow>
      (case targets_of info_dict schools of
        Inl e \<Rightarrow> Inl e
      | Inr target_ec \<Rightarrow>
      (case means_of env_dict col_ec schools of
        Inl e \<Rightarrow> Inl e
      | Inr actual_ec \<Rightarrow> Inr (EnvBars avg_temp avg_hum avg_ph target_ec actual_ec))))))"

text \<open>
  A column handed to \<open>px.line\<close> by name: the plotting library raises \<open>ValueError\<close> when
  the table has no such column.
\<close>

definition plot_column :: "table \<Rightarrow> ustring \<Rightarrow> py_error + cell list" where
  "plot_column df c = (case map_of (columns df) c of None \<Rightarrow> Inl ValueError | Some vs \<Rightarrow> Inr vs)"

text \<open>The time series of the selected school (\<open>if selected_school != "all"\<close>).\<close>

definition school_series :: "frames \<Rightarrow> info \<Rightarrow> ustring \<Rightarrow> py_error + element" where
  "school_series env_dict info_dict selected_school =
     (case lookup env_dict selected_school of
        Inl e \<Rightarrow> Inl e
      | Inr df_sel \<Rightarrow>
      (case getitem df_sel col_time of
        Inl e \<Rightarrow> Inl e
      | Inr ts \<Rightarrow>
      (case getitem df_sel col_temperature of
        Inl e \<Rightarrow> Inl e
      | Inr temps \<Rightarrow>
      (case getitem df_sel col_humidity of
        Inl e \<Rightarrow> Inl e
      | Inr hums \<Rightarrow>
      (case plot_column df_sel col_ec of
        Inl e \<Rightarrow> Inl e
      | Inr ecs \<Rightarrow>
      (case lookup info_dict selected_school of
        Inl e \<Rightarrow> Inl e
      | Inr i \<Rightarrow> Inr (SchoolSeries ts temps hums ecs (ec_target i))))))))"

definition tab2 :: "table \<Rightarrow> frames \<Rightarrow> info \<Rightarrow> ustring \<Rightarrow> part" where
  "tab2 display_env env_dict info_dict selected_school =
     (case env_bars env_dict info_dict of
        Inl e \<Rightarrow> ([], Some e)
      | Inr bars \<Rightarrow>
          and_then ([bars], None)
            (and_then
               (if selected_school \<noteq> sel_all then
                  (case school_series env_dict info_dict selected_school of
                     Inl e \<Rightarrow> ([], Some e)
                   | Inr series \<Rightarrow> ([series], None))
                else ([], None))
               ([EnvExport display_env], None)))"

text \<open>\<open>[len(growth_dict[s]) for s in names]\<close>\<close>

fun counts_of :: "frames \<Rightarrow> ustring list \<Rightarrow> py_error + nat list" where
  "counts_of d [] = Inr []"
| "counts_of d (s # rest) =
     (case lookup d s of
        Inl e \<Rightarrow> Inl e
      | Inr df \<Rightarrow> (case counts_of d rest of Inl e \<Rightarrow> Inl e | Inr ns \<Rightarrow> Inr (nrows df # ns)))"

text \<open>The bar charts of tab 3.\<close>

definition growth_bars :: "frames \<Rightarrow> info \<Rightarrow> py_error + element" where
  "growth_bars growth_dict info_dict =
     (let names = map fst info_dict in
      case means_of growth_dict col_weight names of
        Inl e \<Rightarrow> Inl e
      | Inr weights \<Rightarrow>
      (case means_of growth_dict col_leaves names of
        Inl e \<Rightarrow> Inl e
      | Inr leaves \<Rightarrow>
      (case means_of growth_dict col_height names of
        Inl e \<Rightarrow> Inl e
      | Inr heights \<Rightarrow>
      (case counts_of growth_dict names of
        Inl e \<Rightarrow> Inl e
      | Inr counts \<Rightarrow> Inr (GrowthBars weights leaves heights counts)))))"

definition tab3 :: "table \<Rightarrow> frames \<Rightarrow> info \<Rightarrow> part" where
  "tab3 display_growth growth_dict info_dict =
     (case growth_banner growth_dict info_dict of
        Inl e \<Rightarrow> ([], Some e)
      | Inr b \<Rightarrow>
          and_then ([BestSchool b], None)
            (case growth_bars growth_dict info_dict of
               Inl e \<Rightarrow> ([], Some e)
             | Inr bars \<Rightarrow> ([bars, GrowthPlots display_growth, GrowthExport display_growth], None)))"

text \<open>
  How a run ends: the script reaches its last line, \<open>st.stop()\<close> ends it, or an exception
  that nothing catches ends it.
\<close>

datatype outcome = Completed | Stopped | Uncaught py_error

text \<open>
  A run of the script: the elements shown, the two tables of the view filter once they have
  been computed, and how the run ended.
\<close>

record run =
  elements :: "element list"
  views :: "(table \<times> table) option"
  outcome :: outcome

definition finish :: "(table \<times> table) option \<Rightarrow> part \<Rightarrow> run" where
  "finish v p =
     \<lparr>elements = fst p, views = v,
      outcome = (case snd p of None \<Rightarrow> Completed | Some e \<Rightarrow> Uncaught e)\<rparr>"

text \<open>
  The module from the call of \<open>load_data\<close> on. The result of \<open>load_data\<close> is unpacked into
  three names, which raises \<open>ValueError\<close> on the pair \<open>(None, None)\<close>.
\<close>

definition script :: "(ustring \<Rightarrow> ustring) \<Rightarrow> (cell list \<Rightarrow> py_error + cell list) \<Rightarrow>
    path \<Rightarrow> ustring \<Rightarrow> run" where
  "script nfc to_datetime data_path selected_school =
     (case load_data nfc to_datetime data_path of
        (msgs, Inl e) \<Rightarrow> \<lparr>elements = map ErrorBox msgs, views = None, outcome = Uncaught e\<rparr>
      | (msgs, Inr NoData) \<Rightarrow>
          \<lparr>elements = map ErrorBox msgs, views = None, outcome = Uncaught ValueError\<rparr>
      | (msgs, Inr (Loaded env_dict growth_dict info_dict)) \<Rightarrow>
          if env_dict = [] \<or> growth_dict = [] then
            \<lparr>elements = map ErrorBox msgs @ [ErrorBox DataFilesInsufficient], views = None,
             outcome = Stopped\<rparr>
          else
            (case view_filter env_dict growth_dict selected_school of
               Inl e \<Rightarrow> \<lparr>elements = map ErrorBox msgs, views = None, outcome = Uncaught e\<rparr>
             | Inr (display_env, display_growth) \<Rightarrow>
                 finish (Some (display_env, display_growth))
                   (and_then (map ErrorBox msgs, None)
                      (and_then (tab1 display_env display_growth growth_dict info_dict)
                         (and_then (tab2 display_env env_dict info_dict selected_school)
                            (tab3 display_growth growth_dict info_dict))))))"

section \<open>The view filter on objects\<close>

text \<open>
  A \<open>DataFrame\<close> is an object: the two mappings hold references, and a method that changed
  its receiver would change the cached table. Here the tables live in a store, a reference
  is an index into it, and every library call is modelled with the effect it has on the
  store: \<open>assign\<close> and \<open>concat\<close> only read their arguments and return a new object.
\<close>

type_synonym ref = nat

type_synonym store = "table list"

definition new_frame :: "table \<Rightarrow> store \<Rightarrow> ref \<times> store" where
  "new_frame df h = (length h, h @ [df])"

definition assign_ref :: "ustring \<Rightarrow> cell \<Rightarrow> ref \<Rightarrow> store \<Rightarrow> ref \<times> store" where
  "assign_ref c v r h = new_frame (assign c v (h ! r)) h"

definition concat_refs :: "ref list \<Rightarrow> store \<Rightarrow> py_error + (ref \<times> store)" where
  "concat_refs rs h =
     (case concat_frames (map (\<lambda>r. h ! r) rs) of
        Inl e \<Rightarrow> Inl e
      | Inr df \<Rightarrow> Inr (new_frame df h))"

text \<open>\<open>[df.assign(school=s) for s, df in d.items()]\<close>\<close>

fun tag_refs :: "(ustring \<times> ref) list \<Rightarrow> store \<Rightarrow> ref list \<times> store" where
  "tag_refs [] h = ([], h)"
| "tag_refs ((s, r) # rest) h =
     (case assign_ref col_school (Text s) r h of
        (r', h') \<Rightarrow> (case tag_refs rest h' of (rs, h'') \<Rightarrow> (r' # rs, h'')))"

definition view_filter_refs :: "(ustring \<times> ref) list \<Rightarrow> (ustring \<times> ref) list \<Rightarrow> ustring \<Rightarrow>
    store \<Rightarrow> py_error + ((ref \<times> ref) \<times> store)" where
  "view_filter_refs env_dict growth_dict selected_school h =
     (if selected_school = sel_all then
        (case tag_refs env_dict h of
           (es, h1) \<Rightarrow>
             (case concat_refs es h1 of
                Inl e \<Rightarrow> Inl e
              | Inr (display_env, h2) \<Rightarrow>
                  (case tag_refs growth_dict h2 of
                     (gs, h3) \<Rightarrow>
                       (case concat_refs gs h3 of
                          Inl e \<Rightarrow> Inl e
                        | Inr (display_growth, h4) \<Rightarrow>
                            Inr ((display_env, display_growth), h4)))))
      else
        (case lookup env_dict selected_school of
           Inl e \<Rightarrow> Inl e
         | Inr er \<Rightarrow>
             (case assign_ref col_school (Text selected_school) er h of
                (display_env, h1) \<Rightarrow>
                  (case lookup growth_dict selected_school of
                     Inl e \<Rightarrow> Inl e
                   | Inr gr \<Rightarrow>
                       (case assign_ref col_school (Text selected_school) gr h1 of
                          (display_growth, h2) \<Rightarrow>
                            Inr ((display_env, display_growth), h2))))))"

text \<open>The tables a mapping of references stands for.\<close>

definition deref :: "store \<Rightarrow> (ustring \<times> ref) list \<Rightarrow> frames" where
  "deref h d = map (\<lambda>(s, r). (s, h ! r)) d"

section \<open>Notions used in the properties\<close>

text \<open>A \<open>.csv\<close> entry whose normalised name contains the label.\<close>

definition csv_of :: "(ustring \<Rightarrow> ustring) \<Rightarrow> ustring \<Rightarrow> entry \<Rightarrow> bool" where
  "csv_of nfc s f \<longleftrightarrow> suffix ext_csv (nfc (name f)) \<and> sublist s (nfc (name f))"

text \<open>An entry that the loader opens as a workbook, and the sheets found in it.\<close>

definition workbook_of :: "(ustring \<Rightarrow> ustring) \<Rightarrow> entry \<Rightarrow>
    (ustring \<times> (py_error + table)) list \<Rightarrow> bool" where
  "workbook_of nfc f sheets \<longleftrightarrow>
     \<not> suffix ext_csv (nfc (name f)) \<and> suffix ext_xlsx (nfc (name f)) \<and> xlsx f = Inr sheets"

text \<open>Every row has a source tag, and every tag is one of the four labels.\<close>

definition tagged :: "table \<Rightarrow> bool" where
  "tagged df =
     (case getitem df col_school of
        Inl e \<Rightarrow> False
      | Inr vs \<Rightarrow> length vs = nrows df \<and> list_all (\<lambda>v. v \<in> Text ` set labels) vs)"

text \<open>All four schools have an environmental table and a growth table.\<close>

definition complete :: "frames \<Rightarrow> frames \<Rightarrow> bool" where
  "complete env_dict growth_dict =
     list_all (\<lambda>s. s \<in> fst ` set env_dict \<and> s \<in> fst ` set growth_dict) labels"

text \<open>
  The scenario of the specification: one \<open>.csv\<close> file per school, each parsed into \<open>N\<close> rows
  with a time column that converts, and one workbook with four sheets of \<open>M\<close> rows, one per
  school.
\<close>

definition one_sheet_per_school :: "(ustring \<Rightarrow> ustring) \<Rightarrow> nat \<Rightarrow>
    (ustring \<times> (py_error + table)) list \<Rightarrow> bool" where
  "one_sheet_per_school nfc M sheets \<longleftrightarrow>
     length sheets = 4 \<and>
     list_all (\<lambda>s. length (filter (\<lambda>(n, r). sublist s (nfc n)) sheets) = 1) labels \<and>
     list_all (\<lambda>(n, r). case r of Inl e \<Rightarrow> False | Inr df \<Rightarrow> nrows df = M) sheets"

definition scenario :: "(ustring \<Rightarrow> ustring) \<Rightarrow> (cell list \<Rightarrow> py_error + cell list) \<Rightarrow>
    entry list \<Rightarrow> nat \<Rightarrow> nat \<Rightarrow> bool" where
  "scenario nfc to_datetime files N M \<longleftrightarrow>
     list_all (\<lambda>s. length (filter (csv_of nfc s) files) = 1) labels \<and>
     list_all (\<lambda>f. case csv f of
                      Inl e \<Rightarrow> False
                    | Inr df \<Rightarrow> nrows df = N \<and> \<not> isl (coerce_time to_datetime df))
       (filter (\<lambda>f. suffix ext_csv (nfc (name f))) files) \<and>
     (case filter (\<lambda>f. suffix ext_xlsx (nfc (name f))) files of
        [x] \<Rightarrow> (case xlsx x of Inl e \<Rightarrow> False | Inr sheets \<Rightarrow> one_sheet_per_school nfc M sheets)
      | _ \<Rightarrow> False)"

section \<open>Sample data\<close>

text \<open>
  A small data directory of the expected shape, used to run the definitions: four \<open>.csv\<close>
  files of two readings each and one workbook with a sheet of three plants per school.
\<close>

definition sample_readings :: table where
  "sample_readings =
     \<lparr>nrows = 2,
      columns =
        [(col_time, [Number (Fin 0), Number (Fin 60)]),
         (col_temperature, [Number (Fin 20), Number (Fin 22)]),
         (col_humidity, [Number (Fin 50), Number (Fin 54)]),
         (col_ph, [Number (Fin 6), Number (Fin 7)]),
         (col_ec, [Number (Fin 1), Number (Fin 2)])]\<rparr>"

definition sample_plants :: "rat \<Rightarrow> table" where
  "sample_plants w =
     \<lparr>nrows = 3,
      columns =
        [(col_weight, [Number (Fin w), Number (Fin (w + 1)), Number NaN]),
         (col_leaves, [Number (Fin 4), Number (Fin 5), Number (Fin 6)]),
         (col_height, [Number (Fin 30), Number (Fin 40), Number (Fin 50)])]\<rparr>"

definition csv_entry :: "ustring \<Rightarrow> entry" where
  "csv_entry s = \<lparr>name = s @ ext_csv, csv = Inr sample_readings, xlsx = Inl ReadError\<rparr>"

definition workbook_entry :: "(ustring \<times> (py_error + table)) list \<Rightarrow> entry" where
  "workbook_entry sheets = \<lparr>name = [103] @ ext_xlsx, csv = Inl ReadError, xlsx = Inr sheets\<rparr>"

definition sample_sheets :: "(ustring \<times> (py_error + table)) list" where
  "sample_sheets =
     [(songdo, Inr (sample_plants 3)), (haneul, Inr (sample_plants 7)),
      (ara, Inr (sample_plants 5)), (dongsan, Inr (sample_plants 2))]"

definition sample_files :: "entry list" where
  "sample_files =
     [csv_entry ara, workbook_entry sample_sheets, csv_entry songdo, csv_entry dongsan,
      csv_entry haneul]"

text \<open>Names that are already in normal form; a time column that is already numeric.\<close>

definition nfc_id :: "ustring \<Rightarrow> ustring" where
  "nfc_id s = s"

definition to_datetime_id :: "cell list \<Rightarrow> py_error + cell list" where
  "to_datetime_id vs = Inr vs"

text \<open>What the loader makes of the sample directory.\<close>

definition sample_env :: frames where
  "sample_env =
     [(ara, sample_readings), (songdo, sample_readings), (dongsan, sample_readings),
      (haneul, sample_readings)]"

definition sample_growth :: frames where
  "sample_growth =
     [(songdo, sample_plants 3), (haneul, sample_plants 7), (ara, sample_plants 5),
      (dongsan, sample_plants 2)]"

text \<open>A directory in which only one school has data.\<close>

definition partial_files :: "entry list" where
  "partial_files = [csv_entry songdo, workbook_entry [(songdo, Inr (sample_plants 3))]]"

text \<open>A sheet whose fresh-weight cells are all empty, and a directory whose first sheet it is.\<close>

definition blank_weights :: table where
  "blank_weights =
     \<lparr>nrows = 2,
      columns =
        [(col_weight, [Number NaN, Number NaN]),
         (col_leaves, [Number (Fin 4), Number (Fin 5)]),
         (col_height, [Number (Fin 30), Number (Fin 40)])]\<rparr>"

definition blank_first_growth :: frames where
  "blank_first_growth =
     [(songdo, blank_weights), (haneul, sample_plants 7), (ara, sample_plants 5),
      (dongsan, sample_plants 2)]"

definition sample_env_in_label_order :: frames where
  "sample_env_in_label_order =
     [(songdo, sample_readings), (haneul, sample_readings), (ara, sample_readings),
      (dongsan, sample_readings)]"

definition blank_first_files :: "entry list" where
  "blank_first_files =
     [csv_entry songdo, csv_entry haneul, csv_entry ara, csv_entry dongsan,
      workbook_entry
        [(songdo, Inr blank_weights), (haneul, Inr (sample_plants 7)),
         (ara, Inr (sample_plants 5)), (dongsan, Inr (sample_plants 2))]]"

section \<open>Properties of the loader\<close>

lemma set_update_subset: "set (AList.update k v al) \<subseteq> insert (k, v) (set al)"
  by (induction al) auto

lemma load_csv_keys:
  "load_csv td f nm ls env = Inr env' \<Longrightarrow>
   fst ` set env' = fst ` set env \<union> {s \<in> set ls. sublist s nm}"
proof (induction ls arbitrary: env)
  case Nil
  then show ?case by simp
next
  case (Cons s ls)
  show ?case
  proof (cases "sublist s nm")
    case True
    with Cons.prems obtain df where r: "read_env td f = Inr df"
      and l: "load_csv td f nm ls (AList.update s df env) = Inr env'"
      by (auto split: sum.splits)
    from Cons.IH [OF l] True show ?thesis
      by (auto simp: dom_update)
  next
    case False
    with Cons.prems have "load_csv td f nm ls env = Inr env'" by simp
    from Cons.IH [OF this] False show ?thesis by auto
  qed
qed

lemma load_csv_distinct:
  "load_csv td f nm ls env = Inr env' \<Longrightarrow> distinct (map fst env) \<Longrightarrow> distinct (map fst env')"
  by (induction ls arbitrary: env) (auto split: if_splits sum.splits simp: distinct_update)

lemma load_csv_values:
  "load_csv td f nm ls env = Inr env' \<Longrightarrow> (s, df) \<in> set env' \<Longrightarrow>
   (s, df) \<in> set env \<or> (s \<in> set ls \<and> sublist s nm \<and> read_env td f = Inr df)"
proof (induction ls arbitrary: env)
  case Nil
  then show ?case by simp
next
  case (Cons a ls)
  show ?case
  proof (cases "sublist a nm")
    case True
    with Cons.prems obtain d where r: "read_env td f = Inr d"
      and l: "load_csv td f nm ls (AList.update a d env) = Inr env'"
      by (auto split: sum.splits)
    from Cons.IH [OF l Cons.prems(2)] r True set_update_subset [of a d env]
    show ?thesis by auto
  next
    case False
    with Cons.prems have "load_csv td f nm ls env = Inr env'" by simp
    from Cons.IH [OF this Cons.prems(2)] show ?thesis by auto
  qed
qed

lemma load_csv_total:
  "read_env td f = Inr df \<Longrightarrow> \<exists>env'. load_csv td f nm ls env = Inr env'"
  by (induction ls arbitrary: env) auto


lemma load_sheet_keys:
  "load_sheet sheets n nm ls g = Inr g' \<Longrightarrow>
   fst ` set g' = fst ` set g \<union> {s \<in> set ls. sublist s nm}"
proof (induction ls arbitrary: g)
  case Nil
  then show ?case by simp
next
  case (Cons s ls)
  show ?case
  proof (cases "sublist s nm")
    case True
    with Cons.prems obtain df where r: "read_excel sheets n = Inr df"
      and l: "load_sheet sheets n nm ls (AList.update s df g) = Inr g'"
      by (auto split: sum.splits)
    from Cons.IH [OF l] True show ?thesis
      by (auto simp: dom_update)
  next
    case False
    with Cons.prems have "load_sheet sheets n nm ls g = Inr g'" by simp
    from Cons.IH [OF this] False show ?thesis by auto
  qed
qed

lemma load_sheet_distinct:
  "load_sheet sheets n nm ls g = Inr g' \<Longrightarrow> distinct (map fst g) \<Longrightarrow> distinct (map fst g')"
  by (induction ls arbitrary: g) (auto split: if_splits sum.splits simp: distinct_update)

lemma load_sheet_values:
  "load_sheet sheets n nm ls g = Inr g' \<Longrightarrow> (s, df) \<in> set g' \<Longrightarrow>
   (s, df) \<in> set g \<or> (s \<in> set ls \<and> sublist s nm \<and> read_excel sheets n = Inr df)"
proof (induction ls arbitrary: g)
  case Nil
  then show ?case by simp
next
  case (Cons a ls)
  show ?case
  proof (cases "sublist a nm")
    case True
    with Cons.prems obtain d where r: "read_excel sheets n = Inr d"
      and l: "load_sheet sheets n nm ls (AList.update a d g) = Inr g'"
      by (auto split: sum.splits)
    from Cons.IH [OF l Cons.prems(2)] r True set_update_subset [of a d g]
    show ?thesis by auto
  next
    case False
    with Cons.prems have "load_sheet sheets n nm ls g = Inr g'" by simp
    from Cons.IH [OF this Cons.prems(2)] show ?thesis by auto
  qed
qed

lemma load_sheet_total:
  "read_excel sheets n = Inr df \<Longrightarrow> \<exists>g'. load_sheet sheets n nm ls g = Inr g'"
  by (induction ls arbitrary: g) auto


lemma load_sheets_keys:
  "load_sheets nfc sheets ns g = Inr g' \<Longrightarrow>
   fst ` set g' = fst ` set g \<union> {s \<in> set labels. \<exists>n\<in>set ns. sublist s (nfc n)}"
proof (induction ns arbitrary: g)
  case Nil
  then show ?case by simp
next
  case (Cons n ns)
  from Cons.prems obtain g1 where a: "load_sheet sheets n (nfc n) labels g = Inr g1"
    and b: "load_sheets nfc sheets ns g1 = Inr g'"
    by (auto split: sum.splits)
  from load_sheet_keys [OF a] Cons.IH [OF b] show ?case by auto
qed

lemma load_sheets_distinct:
  "load_sheets nfc sheets ns g = Inr g' \<Longrightarrow> distinct (map fst g) \<Longrightarrow> distinct (map fst g')"
proof (induction ns arbitrary: g)
  case Nil
  then show ?case by simp
next
  case (Cons n ns)
  from Cons.prems obtain g1 where a: "load_sheet sheets n (nfc n) labels g = Inr g1"
    and b: "load_sheets nfc sheets ns g1 = Inr g'"
    by (auto split: sum.splits)
  from load_sheet_distinct [OF a Cons.prems(2)] Cons.IH [OF b] show ?case by simp
qed

lemma load_sheets_values:
  "load_sheets nfc sheets ns g = Inr g' \<Longrightarrow> (s, df) \<in> set g' \<Longrightarrow>
   (s, df) \<in> set g \<or>
   (s \<in> set labels \<and> (\<exists>n\<in>set ns. sublist s (nfc n) \<and> read_excel sheets n = Inr df))"
proof (induction ns arbitrary: g)
  case Nil
  then show ?case by simp
next
  case (Cons n ns)
  from Cons.prems obtain g1 where a: "load_sheet sheets n (nfc n) labels g = Inr g1"
    and b: "load_sheets nfc sheets ns g1 = Inr g'"
    by (auto split: sum.splits)
  from Cons.IH [OF b Cons.prems(2)] load_sheet_values [OF a, of s df] show ?case by auto
qed

lemma load_sheets_total:
  "\<forall>n\<in>set ns. \<exists>df. read_excel sheets n = Inr df \<Longrightarrow>
   \<exists>g'. load_sheets nfc sheets ns g = Inr g'"
proof (induction ns arbitrary: g)
  case Nil
  then show ?case by simp
next
  case (Cons n ns)
  then obtain df where "read_excel sheets n = Inr df" by auto
  from load_sheet_total [OF this] obtain g1
    where a: "load_sheet sheets n (nfc n) labels g = Inr g1" by blast
  from Cons.IH [of g1] Cons.prems obtain g' where "load_sheets nfc sheets ns g1 = Inr g'" by auto
  with a show ?case by simp
qed

lemma load_files_Cons:
  assumes "load_files nfc td (f # fs) env g = Inr r"
  obtains
    (csv) env1 where "suffix ext_csv (nfc (name f))"
      "load_csv td f (nfc (name f)) labels env = Inr env1"
      "load_files nfc td fs env1 g = Inr r"
  | (xlsx) sheets g1 where "workbook_of nfc f sheets"
      "load_sheets nfc sheets (map fst sheets) g = Inr g1"
      "load_files nfc td fs env g1 = Inr r"
  | (other) "\<not> suffix ext_csv (nfc (name f))" "\<not> suffix ext_xlsx (nfc (name f))"
      "load_files nfc td fs env g = Inr r"
  using assms
  by (auto simp: Let_def workbook_of_def split: if_splits sum.splits)

lemma load_files_keys_env:
  "load_files nfc td fs env g = Inr (env', g') \<Longrightarrow>
   fst ` set env' = fst ` set env \<union> {s \<in> set labels. \<exists>f\<in>set fs. csv_of nfc s f}"
proof (induction fs arbitrary: env g)
  case Nil
  then show ?case by simp
next
  case (Cons f fs)
  from Cons.prems show ?case
  proof (cases rule: load_files_Cons)
    case (csv env1)
    from load_csv_keys [OF csv(2)] Cons.IH [OF csv(3)] csv(1) show ?thesis
      by (auto simp: csv_of_def)
  next
    case (xlsx sheets g1)
    from Cons.IH [OF xlsx(3)] xlsx(1) show ?thesis
      by (auto simp: csv_of_def workbook_of_def)
  next
    case other
    from Cons.IH [OF other(3)] other(1) show ?thesis
      by (auto simp: csv_of_def)
  qed
qed

lemma load_files_keys_growth:
  "load_files nfc td fs env g = Inr (env', g') \<Longrightarrow>
   fst ` set g' = fst ` set g \<union>
     {s \<in> set labels. \<exists>f\<in>set fs. \<exists>sheets. workbook_of nfc f sheets \<and>
        (\<exists>n\<in>fst ` set sheets. sublist s (nfc n))}"
proof (induction fs arbitrary: env g)
  case Nil
  then show ?case by simp
next
  case (Cons f fs)
  from Cons.prems show ?case
  proof (cases rule: load_files_Cons)
    case (csv env1)
    from Cons.IH [OF csv(3)] csv(1) show ?thesis
      by (auto simp: workbook_of_def)
  next
    case (xlsx sheets g1)
    from xlsx(1) have u: "\<And>sh. workbook_of nfc f sh \<longleftrightarrow> sh = sheets"
      by (auto simp: workbook_of_def)
    have "{s \<in> set labels. \<exists>h\<in>set (f # fs). \<exists>sh. workbook_of nfc h sh \<and>
             (\<exists>n\<in>fst ` set sh. sublist s (nfc n))} =
          {s \<in> set labels. \<exists>n\<in>set (map fst sheets). sublist s (nfc n)} \<union>
          {s \<in> set labels. \<exists>h\<in>set fs. \<exists>sh. workbook_of nfc h sh \<and>
             (\<exists>n\<in>fst ` set sh. sublist s (nfc n))}"
      unfolding set_simps bex_simps u by (simp only: set_map) blast
    with load_sheets_keys [OF xlsx(2)] Cons.IH [OF xlsx(3)] show ?thesis
      by (simp only: Un_assoc)
  next
    case other
    from Cons.IH [OF other(3)] other(2) show ?thesis
      by (auto simp: workbook_of_def)
  qed
qed

lemma load_files_distinct:
  "load_files nfc td fs env g = Inr (env', g') \<Longrightarrow>
   distinct (map fst env) \<Longrightarrow> distinct (map fst g) \<Longrightarrow>
   distinct (map fst env') \<and> distinct (map fst g')"
proof (induction fs arbitrary: env g)
  case Nil
  then show ?case by simp
next
  case (Cons f fs)
  from Cons.prems(1) show ?case
  proof (cases rule: load_files_Cons)
    case (csv env1)
    from load_csv_distinct [OF csv(2) Cons.prems(2)] Cons.IH [OF csv(3)] Cons.prems(3)
    show ?thesis by simp
  next
    case (xlsx sheets g1)
    from load_sheets_distinct [OF xlsx(2) Cons.prems(3)] Cons.IH [OF xlsx(3)] Cons.prems(2)
    show ?thesis by simp
  next
    case other
    from Cons.IH [OF other(3)] Cons.prems(2,3) show ?thesis by simp
  qed
qed

lemma load_files_values_env:
  "load_files nfc td fs env g = Inr (env', g') \<Longrightarrow> (s, df) \<in> set env' \<Longrightarrow>
   (s, df) \<in> set env \<or> (\<exists>f\<in>set fs. csv_of nfc s f \<and> read_env td f = Inr df)"
proof (induction fs arbitrary: env g)
  case Nil
  then show ?case by simp
next
  case (Cons f fs)
  from Cons.prems(1) show ?case
  proof (cases rule: load_files_Cons)
    case (csv env1)
    from Cons.IH [OF csv(3) Cons.prems(2)] load_csv_values [OF csv(2), of s df] csv(1)
    show ?thesis by (auto simp: csv_of_def)
  next
    case (xlsx sheets g1)
    from Cons.IH [OF xlsx(3) Cons.prems(2)] show ?thesis by auto
  next
    case other
    from Cons.IH [OF other(3) Cons.prems(2)] show ?thesis by auto
  qed
qed

lemma load_files_values_growth:
  "load_files nfc td fs env g = Inr (env', g') \<Longrightarrow> (s, df) \<in> set g' \<Longrightarrow>
   (s, df) \<in> set g \<or>
   (\<exists>f\<in>set fs. \<exists>sheets. workbook_of nfc f sheets \<and>
      (\<exists>n\<in>fst ` set sheets. sublist s (nfc n) \<and> read_excel sheets n = Inr df))"
proof (induction fs arbitrary: env g)
  case Nil
  then show ?case by simp
next
  case (Cons f fs)
  from Cons.prems(1) show ?case
  proof (cases rule: load_files_Cons)
    case (csv env1)
    from Cons.IH [OF csv(3) Cons.prems(2)] show ?thesis by auto
  next
    case (xlsx sheets g1)
    from Cons.IH [OF xlsx(3) Cons.prems(2)] load_sheets_values [OF xlsx(2), of s df] xlsx(1)
    show ?thesis by auto
  next
    case other
    from Cons.IH [OF other(3) Cons.prems(2)] show ?thesis by auto
  qed
qed

lemma load_files_total:
  assumes "\<forall>f\<in>set fs. suffix ext_csv (nfc (name f)) \<longrightarrow> (\<exists>df. read_env td f = Inr df)"
    and "\<forall>f\<in>set fs. \<not> suffix ext_csv (nfc (name f)) \<and> suffix ext_xlsx (nfc (name f)) \<longrightarrow>
           (\<exists>sheets. xlsx f = Inr sheets \<and>
              (\<forall>n\<in>fst ` set sheets. \<exists>df. read_excel sheets n = Inr df))"
  shows "\<exists>r. load_files nfc td fs env g = Inr r"
  using assms
proof (induction fs arbitrary: env g)
  case Nil
  then show ?case by simp
next
  case (Cons f fs)
  from Cons.prems have ih: "\<And>env g. \<exists>r. load_files nfc td fs env g = Inr r"
    by (intro Cons.IH) auto
  consider (csv) "suffix ext_csv (nfc (name f))"
    | (xlsx) "\<not> suffix ext_csv (nfc (name f))" "suffix ext_xlsx (nfc (name f))"
    | (other) "\<not> suffix ext_csv (nfc (name f))" "\<not> suffix ext_xlsx (nfc (name f))"
    by blast
  then show ?case
  proof cases
    case csv
    with Cons.prems(1) obtain df where "read_env td f = Inr df" by auto
    from load_csv_total [OF this] obtain env1
      where "load_csv td f (nfc (name f)) labels env = Inr env1" by blast
    with csv ih [of env1 g] show ?thesis by (auto simp: Let_def)
  next
    case xlsx
    with Cons.prems(2) obtain sheets where s: "xlsx f = Inr sheets"
      and r: "\<forall>n\<in>fst ` set sheets. \<exists>df. read_excel sheets n = Inr df" by auto
    from r have "\<forall>n\<in>set (map fst sheets). \<exists>df. read_excel sheets n = Inr df" by simp
    from load_sheets_total [OF this] obtain g1
      where "load_sheets nfc sheets (map fst sheets) g = Inr g1" by blast
    with xlsx s ih [of env g1] show ?thesis by (auto simp: Let_def)
  next
    case other
    with ih [of env g] show ?thesis by (auto simp: Let_def)
  qed
qed

lemma load_data_keys:
  assumes "load_data nfc td p = (msgs, Inr (Loaded env_dict growth_dict info_dict))"
  shows "fst ` set env_dict \<subseteq> set labels \<and> fst ` set growth_dict \<subseteq> set labels"
proof -
  from assms obtain fs where "load_files nfc td fs [] [] = Inr (env_dict, growth_dict)"
    by (auto simp: load_data_def split: path.splits sum.splits)
  from load_files_keys_env [OF this] load_files_keys_growth [OF this]
  show ?thesis by auto
qed

section \<open>Properties of the view filter\<close>

lemma nrows_assign: "nrows (assign c v df) = nrows df"
  by (simp add: assign_def)

lemma getitem_assign_same: "getitem (assign c v df) c = Inr (replicate (nrows df) v)"
  by (simp add: getitem_def assign_def update_conv')

lemma map_of_assign_other:
  "c' \<noteq> c \<Longrightarrow> map_of (columns (assign c v df)) c' = map_of (columns df) c'"
  by (simp add: assign_def update_conv')

lemma column_or_nan_assign_same:
  "column_or_nan c (assign c v df) = replicate (nrows df) v"
  by (simp add: column_or_nan_def assign_def update_conv')

lemma column_or_nan_assign_other:
  "c' \<noteq> c \<Longrightarrow> column_or_nan c' (assign c v df) = column_or_nan c' df"
  by (simp add: column_or_nan_def map_of_assign_other nrows_assign split: option.splits)

lemma set_uniq: "set (uniq xs) = set xs"
  by (simp add: uniq_def)

lemma map_of_tabulate:
  "map_of (map (\<lambda>c. (c, f c)) xs) c = (if c \<in> set xs then Some (f c) else None)"
  by (induction xs) auto

lemma nrows_concat_frames:
  "concat_frames dfs = Inr t \<Longrightarrow> nrows t = sum_list (map nrows dfs)"
  by (auto simp: concat_frames_def split: if_splits)

lemma map_of_concat_frames:
  "concat_frames dfs = Inr t \<Longrightarrow>
   map_of (columns t) c =
     (if \<exists>df\<in>set dfs. c \<in> fst ` set (columns df)
      then Some (concat (map (column_or_nan c) dfs)) else None)"
proof -
  assume "concat_frames dfs = Inr t"
  then have "columns t = map (\<lambda>c. (c, concat (map (column_or_nan c) dfs)))
      (uniq (concat (map (\<lambda>df. map fst (columns df)) dfs)))"
    by (auto simp: concat_frames_def split: if_splits)
  moreover have "c \<in> set (uniq (concat (map (\<lambda>df. map fst (columns df)) dfs))) \<longleftrightarrow>
      (\<exists>df\<in>set dfs. c \<in> fst ` set (columns df))"
    by (simp add: set_uniq)
  ultimately show ?thesis
    by (simp only: map_of_tabulate)
qed

lemma concat_frames_total: "dfs \<noteq> [] \<Longrightarrow> \<exists>t. concat_frames dfs = Inr t"
  by (simp add: concat_frames_def)

lemma nrows_tag_frames: "map nrows (tag_frames d) = map (\<lambda>(s, df). nrows df) d"
  by (induction d) (auto simp: tag_frames_def nrows_assign)

lemma tag_frames_Nil: "tag_frames d = [] \<longleftrightarrow> d = []"
  by (simp add: tag_frames_def)

lemma school_in_assign: "c \<in> fst ` set (columns (assign c v df))"
  by (simp add: assign_def dom_update)

lemma columns_tag_frames_other:
  "c \<noteq> col_school \<Longrightarrow>
   map (column_or_nan c) (tag_frames d) = map (\<lambda>(s, df). column_or_nan c df) d"
  by (induction d) (auto simp: tag_frames_def column_or_nan_assign_other)

lemma columns_tag_frames_school:
  "map (column_or_nan col_school) (tag_frames d) =
   map (\<lambda>(s, df). replicate (nrows df) (Text s)) d"
  by (induction d) (auto simp: tag_frames_def column_or_nan_assign_same)

lemma getitem_school_concat:
  assumes "d \<noteq> []" and "concat_frames (tag_frames d) = Inr t"
  shows "getitem t col_school = Inr (concat (map (\<lambda>(s, df). replicate (nrows df) (Text s)) d))"
proof -
  from assms(1) obtain s df rest where d: "d = (s, df) # rest"
    by (cases d) auto
  have "\<exists>x\<in>set (tag_frames d). col_school \<in> fst ` set (columns x)"
    unfolding d tag_frames_def using school_in_assign [of col_school "Text s" df] by simp
  with map_of_concat_frames [OF assms(2), of col_school] show ?thesis
    by (simp add: getitem_def columns_tag_frames_school)
qed

lemma tagged_concat:
  assumes "d \<noteq> []" and "concat_frames (tag_frames d) = Inr t"
    and "fst ` set d \<subseteq> set labels"
  shows "tagged t"
proof -
  let ?vs = "concat (map (\<lambda>(s, df). replicate (nrows df) (Text s)) d)"
  have len: "length ?vs = sum_list (map (\<lambda>(s, df). nrows df) d)"
    by (induction d) auto
  from assms(3) have "\<forall>v\<in>set ?vs. v \<in> Text ` set labels"
    by (induction d) auto
  with len getitem_school_concat [OF assms(1,2)] nrows_concat_frames [OF assms(2)]
  show ?thesis
    by (simp add: tagged_def nrows_tag_frames list_all_iff)
qed

lemma tagged_assign: "s \<in> set labels \<Longrightarrow> tagged (assign col_school (Text s) df)"
  by (simp add: tagged_def getitem_assign_same nrows_assign list_all_iff)

lemma lookup_Inr: "lookup d k = Inr v \<longleftrightarrow> map_of d k = Some v"
  by (simp add: lookup_def split: option.splits)

lemma lookup_Inr_key: "lookup d k = Inr v \<Longrightarrow> k \<in> fst ` set d"
  by (auto simp: lookup_Inr dest: map_of_SomeD intro: rev_image_eqI)

lemma view_filter_tagged:
  assumes "view_filter env_dict growth_dict sel = Inr (de, dg)"
    and "fst ` set env_dict \<subseteq> set labels" and "fst ` set growth_dict \<subseteq> set labels"
  shows "tagged de \<and> tagged dg"
proof (cases "sel = sel_all")
  case True
  with assms(1) have e: "concat_frames (tag_frames env_dict) = Inr de"
    and g: "concat_frames (tag_frames growth_dict) = Inr dg"
    by (auto simp: view_filter_def split: sum.splits)
  from e have "env_dict \<noteq> []" by (auto simp: concat_frames_def tag_frames_def split: if_splits)
  moreover from g have "growth_dict \<noteq> []"
    by (auto simp: concat_frames_def tag_frames_def split: if_splits)
  ultimately show ?thesis
    using tagged_concat [OF _ e assms(2)] tagged_concat [OF _ g assms(3)] by simp
next
  case False
  with assms(1) obtain edf gdf where e: "lookup env_dict sel = Inr edf"
    and g: "lookup growth_dict sel = Inr gdf"
    and d: "de = assign col_school (Text sel) edf" "dg = assign col_school (Text sel) gdf"
    by (auto simp: view_filter_def split: sum.splits)
  from lookup_Inr_key [OF e] assms(2) have "sel \<in> set labels" by auto
  with d show ?thesis by (simp add: tagged_assign)
qed

lemma getitem_column: "getitem df c = Inr vs \<Longrightarrow> c \<in> fst ` set (columns df)"
  by (auto simp: getitem_def split: option.splits dest!: map_of_SomeD intro: rev_image_eqI)

lemma view_filter_school_column:
  assumes "view_filter env_dict growth_dict sel = Inr (de, dg)"
  shows "col_school \<in> fst ` set (columns de) \<and> col_school \<in> fst ` set (columns dg)"
proof (cases "sel = sel_all")
  case True
  with assms have e: "concat_frames (tag_frames env_dict) = Inr de"
    and g: "concat_frames (tag_frames growth_dict) = Inr dg"
    by (auto simp: view_filter_def split: sum.splits)
  from e have "env_dict \<noteq> []" by (auto simp: concat_frames_def tag_frames_def split: if_splits)
  moreover from g have "growth_dict \<noteq> []"
    by (auto simp: concat_frames_def tag_frames_def split: if_splits)
  ultimately show ?thesis
    using getitem_school_concat [OF _ e] getitem_school_concat [OF _ g]
    by (simp add: getitem_column)
next
  case False
  with assms show ?thesis
    by (auto simp: view_filter_def school_in_assign split: sum.splits)
qed

lemma concat_replicate_nrows:
  "concat (map (\<lambda>df. replicate (nrows df) x) dfs) = replicate (sum_list (map nrows dfs)) x"
  by (induction dfs) (auto simp: replicate_add)

lemma column_or_nan_concat:
  assumes "concat_frames dfs = Inr t"
  shows "column_or_nan c t = concat (map (column_or_nan c) dfs)"
proof (cases "\<exists>df\<in>set dfs. c \<in> fst ` set (columns df)")
  case True
  with map_of_concat_frames [OF assms, of c] show ?thesis
    by (simp add: column_or_nan_def)
next
  case False
  then have none: "\<forall>df\<in>set dfs. map_of (columns df) c = None"
    by (simp add: map_of_eq_None_iff)
  have m: "map (column_or_nan c) dfs = map (\<lambda>df. replicate (nrows df) (Number NaN)) dfs"
  proof (rule map_cong)
    fix df assume "df \<in> set dfs"
    with none show "column_or_nan c df = replicate (nrows df) (Number NaN)"
      by (simp add: column_or_nan_def)
  qed simp
  from False map_of_concat_frames [OF assms, of c]
  have "column_or_nan c t = replicate (nrows t) (Number NaN)"
    by (simp add: column_or_nan_def)
  then show ?thesis
    by (simp only: m nrows_concat_frames [OF assms] concat_replicate_nrows)
qed

section \<open>Properties of the view filter on objects\<close>

lemma deref_append:
  "\<forall>r\<in>snd ` set d. r < length h \<Longrightarrow> deref (h @ ext) d = deref h d"
  by (induction d) (auto simp: deref_def nth_append)

lemma tag_refs_spec:
  "\<forall>r\<in>snd ` set d. r < length h \<Longrightarrow>
   tag_refs d h = (rs, h') \<Longrightarrow>
   h' = h @ tag_frames (deref h d) \<and> rs = map (\<lambda>i. length h + i) [0..<length d]"
proof (induction d arbitrary: h rs h')
  case Nil
  then show ?case by (simp add: tag_frames_def deref_def)
next
  case (Cons p d)
  obtain s r where p: "p = (s, r)" by (cases p)
  let ?x = "assign col_school (Text s) (h ! r)"
  let ?h1 = "h @ [?x]"
  obtain rs1 h2 where t: "tag_refs d ?h1 = (rs1, h2)" by (cases "tag_refs d ?h1")
  from Cons.prems(1) have v: "\<forall>r\<in>snd ` set d. r < length h" by simp
  then have v1: "\<forall>r\<in>snd ` set d. r < length ?h1" by auto
  from Cons.IH [OF v1 t] deref_append [OF v, of "[?x]"]
  have h2: "h2 = ?h1 @ tag_frames (deref h d)"
    and rs1: "rs1 = map (\<lambda>i. length ?h1 + i) [0..<length d]" by simp_all
  from Cons.prems(2) t have r: "rs = length h # rs1" "h' = h2"
    by (simp_all add: p assign_ref_def new_frame_def)
  have "map (\<lambda>i. length h + i) [0..<Suc (length d)] =
        length h # map (\<lambda>i. length ?h1 + i) [0..<length d]"
    by (simp add: upt_rec [of 0] map_Suc_upt [symmetric] del: upt_Suc)
  with r h2 rs1 show ?case
    by (simp add: p tag_frames_def deref_def)
qed

lemma nths_tagged:
  "map (\<lambda>r. (h @ xs @ ys) ! r) (map (\<lambda>i. length h + i) [0..<length xs]) = xs"
  by (intro nth_equalityI) (auto simp: nth_append)

lemma map_of_deref: "map_of (deref h d) k = map_option (\<lambda>r. h ! r) (map_of d k)"
  by (induction d) (auto simp: deref_def)

lemma lookup_deref:
  "lookup d k = Inr r \<Longrightarrow> lookup (deref h d) k = Inr (h ! r) \<and> r \<in> snd ` set d"
  by (auto simp: lookup_def map_of_deref split: option.splits dest: map_of_SomeD intro: rev_image_eqI)

lemma view_filter_refs_all:
  assumes run: "view_filter_refs env_dict growth_dict sel_all h = Inr ((de, dg), h')"
    and valid: "\<forall>r\<in>snd ` set env_dict \<union> snd ` set growth_dict. r < length h"
  shows "\<exists>ext. h' = h @ ext \<and> length h \<le> de \<and> de < length h' \<and> length h \<le> dg \<and>
           dg < length h' \<and> de \<noteq> dg \<and>
           view_filter (deref h env_dict) (deref h growth_dict) sel_all = Inr (h' ! de, h' ! dg)"
proof -
  let ?T1 = "tag_frames (deref h env_dict)"
  let ?T2 = "tag_frames (deref h growth_dict)"
  obtain es h1 where t1: "tag_refs env_dict h = (es, h1)" by (cases "tag_refs env_dict h")
  from valid have ve: "\<forall>r\<in>snd ` set env_dict. r < length h"
    and vg: "\<forall>r\<in>snd ` set growth_dict. r < length h" by auto
  from tag_refs_spec [OF ve t1] have h1: "h1 = h @ ?T1"
    and es: "es = map (\<lambda>i. length h + i) [0..<length env_dict]" by simp_all
  have len1: "length ?T1 = length env_dict" by (simp add: tag_frames_def deref_def)
  have m1: "map (\<lambda>r. h1 ! r) es = ?T1"
    using nths_tagged [of h ?T1 "[]"] by (simp add: h1 es len1)
  from run t1 obtain h2 where c1: "concat_refs es h1 = Inr (de, h2)"
    by (auto simp: view_filter_refs_def split: sum.splits prod.splits)
  then obtain df1 where d1: "concat_frames ?T1 = Inr df1" and de: "de = length h1"
    and h2: "h2 = h1 @ [df1]"
    by (auto simp: concat_refs_def new_frame_def m1 split: sum.splits)
  obtain gs h3 where t2: "tag_refs growth_dict h2 = (gs, h3)" by (cases "tag_refs growth_dict h2")
  from vg have vg2: "\<forall>r\<in>snd ` set growth_dict. r < length h2" by (auto simp: h2 h1)
  have dr: "deref h2 growth_dict = deref h growth_dict"
    using deref_append [OF vg, of "?T1 @ [df1]"] by (simp add: h2 h1)
  from tag_refs_spec [OF vg2 t2] have h3: "h3 = h2 @ ?T2"
    and gs: "gs = map (\<lambda>i. length h2 + i) [0..<length growth_dict]" by (simp_all add: dr)
  have len2: "length ?T2 = length growth_dict" by (simp add: tag_frames_def deref_def)
  have m2: "map (\<lambda>r. h3 ! r) gs = ?T2"
    using nths_tagged [of h2 ?T2 "[]"] by (simp add: h3 gs len2)
  from run t1 c1 t2 have c2: "concat_refs gs h3 = Inr (dg, h')"
    by (auto simp: view_filter_refs_def split: sum.splits prod.splits)
  then obtain df2 where d2: "concat_frames ?T2 = Inr df2" and dg: "dg = length h3"
    and h': "h' = h3 @ [df2]"
    by (auto simp: concat_refs_def new_frame_def m2 split: sum.splits)
  have full: "h' = h @ (?T1 @ [df1] @ ?T2 @ [df2])" by (simp add: h' h3 h2 h1)
  have "h' ! de = df1" by (simp add: full de h1 nth_append)
  moreover have "h' ! dg = df2" by (simp add: h' dg)
  moreover have "view_filter (deref h env_dict) (deref h growth_dict) sel_all = Inr (df1, df2)"
    by (simp add: view_filter_def d1 d2)
  ultimately show ?thesis
    using full by (auto simp: de dg h1 h2 h3)
qed

lemma view_filter_refs_one:
  assumes run: "view_filter_refs env_dict growth_dict sel h = Inr ((de, dg), h')"
    and sel: "sel \<noteq> sel_all"
    and valid: "\<forall>r\<in>snd ` set env_dict \<union> snd ` set growth_dict. r < length h"
  shows "\<exists>ext. h' = h @ ext \<and> length h \<le> de \<and> de < length h' \<and> length h \<le> dg \<and>
           dg < length h' \<and> de \<noteq> dg \<and>
           view_filter (deref h env_dict) (deref h growth_dict) sel = Inr (h' ! de, h' ! dg)"
proof -
  from run sel obtain er gr where le: "lookup env_dict sel = Inr er"
    and lg: "lookup growth_dict sel = Inr gr"
    by (auto simp: view_filter_refs_def split: sum.splits prod.splits)
  let ?x = "assign col_school (Text sel) (h ! er)"
  let ?y = "assign col_school (Text sel) (h ! gr)"
  from lookup_deref [OF lg, of h] valid have "gr < length h" by auto
  then have "(h @ [?x]) ! gr = h ! gr" by (simp add: nth_append)
  with run sel le lg have r: "de = length h" "dg = Suc (length h)" "h' = h @ [?x, ?y]"
    by (simp_all add: view_filter_refs_def assign_ref_def new_frame_def)
  have "view_filter (deref h env_dict) (deref h growth_dict) sel = Inr (?x, ?y)"
    using lookup_deref [OF le, of h] lookup_deref [OF lg, of h] sel
    by (simp add: view_filter_def)
  with r show ?thesis by (simp add: nth_append)
qed

section \<open>Auxiliary facts for the scenario\<close>

lemma xlsx_not_csv: "suffix ext_xlsx nm \<Longrightarrow> \<not> suffix ext_csv nm"
  by (auto simp: suffix_def ext_xlsx_def ext_csv_def append_eq_append_conv2 Cons_eq_append_conv append_eq_Cons_conv)

lemma labels_distinct: "distinct labels \<and> length labels = 4"
  by (simp add: labels_def school_info_def songdo_def haneul_def ara_def dongsan_def)

lemma nrows_coerce_time: "coerce_time td df = Inr df' \<Longrightarrow> nrows df' = nrows df"
  by (auto simp: coerce_time_def split: sum.splits)

lemma sum_list_const: "\<forall>x\<in>set xs. f x = c \<Longrightarrow> sum_list (map f xs) = length xs * c"
  by (induction xs) auto

lemma view_filter_all:
  assumes "env_dict \<noteq> []" and "growth_dict \<noteq> []"
  shows "\<exists>de dg. view_filter env_dict growth_dict sel_all = Inr (de, dg) \<and>
           nrows de = sum_list (map (\<lambda>(s, df). nrows df) env_dict) \<and>
           nrows dg = sum_list (map (\<lambda>(s, df). nrows df) growth_dict)"
proof -
  from assms obtain de dg where e: "concat_frames (tag_frames env_dict) = Inr de"
    and g: "concat_frames (tag_frames growth_dict) = Inr dg"
    using concat_frames_total [of "tag_frames env_dict"]
      concat_frames_total [of "tag_frames growth_dict"]
    by (auto simp: tag_frames_Nil)
  then have "view_filter env_dict growth_dict sel_all = Inr (de, dg)"
    by (simp add: view_filter_def)
  with nrows_concat_frames [OF e] nrows_concat_frames [OF g] show ?thesis
    by (simp add: nrows_tag_frames)
qed

lemma keys_length: "distinct (map fst d) \<Longrightarrow> fst ` set d = set labels \<Longrightarrow> length d = 4"
proof -
  assume d: "distinct (map fst d)" and k: "fst ` set d = set labels"
  have "length d = length (map fst d)" by simp
  also from d have "\<dots> = card (set (map fst d))" by (simp only: distinct_card)
  also from k have "\<dots> = card (set labels)" by simp
  also from labels_distinct have "\<dots> = 4" by (simp add: distinct_card)
  finally show ?thesis .
qed

lemma read_excel_member:
  "n \<in> fst ` set sheets \<Longrightarrow> \<exists>r. (n, r) \<in> set sheets \<and> read_excel sheets n = r"
proof -
  assume "n \<in> fst ` set sheets"
  then obtain r where "map_of sheets n = Some r"
    by (cases "map_of sheets n") (auto simp: map_of_eq_None_iff)
  then show ?thesis by (auto simp: read_excel_def dest: map_of_SomeD)
qed

lemma filter_one: "length (filter P xs) = Suc 0 \<Longrightarrow> \<exists>x\<in>set xs. P x"
  by (induction xs) (auto split: if_splits)

section \<open>Properties of the rendering\<close>

lemma and_then_elements: "set (fst (and_then p q)) \<subseteq> set (fst p) \<union> set (fst q)"
  by (auto simp: and_then_def split: option.splits)

lemma tab1_metric:
  "MetricOptimalEC a \<in> set (fst (tab1 de dg growth_dict info_dict)) \<Longrightarrow> a = optimal_ec_text"
  by (auto simp: tab1_def and_then_def split: sum.splits option.splits)

lemma tab2_metric: "MetricOptimalEC a \<notin> set (fst (tab2 de env_dict info_dict sel))"
  by (auto simp: tab2_def and_then_def env_bars_def school_series_def Let_def
      split: sum.splits option.splits if_splits)

lemma tab3_metric: "MetricOptimalEC a \<notin> set (fst (tab3 dg growth_dict info_dict))"
  by (auto simp: tab3_def and_then_def growth_bars_def Let_def
      split: sum.splits option.splits if_splits)

lemma script_metric:
  assumes "MetricOptimalEC a \<in> set (elements (script nfc td p sel))"
  shows "a = optimal_ec_text"
proof -
  obtain msgs r where l: "load_data nfc td p = (msgs, r)" by (cases "load_data nfc td p")
  have no: "MetricOptimalEC a \<notin> set (map ErrorBox msgs)" by auto
  show ?thesis
  proof (cases r)
    case (Inl e)
    with assms l no show ?thesis by (simp add: script_def)
  next
    case (Inr ld)
    show ?thesis
    proof (cases ld)
      case NoData
      with assms l no Inr show ?thesis by (simp add: script_def)
    next
      case (Loaded env_dict growth_dict info_dict)
      show ?thesis
      proof (cases "env_dict = [] \<or> growth_dict = []")
        case True
        with assms l Inr Loaded show ?thesis by (auto simp: script_def)
      next
        case False
        show ?thesis
        proof (cases "view_filter env_dict growth_dict sel")
          case (Inl e)
          with assms l Inr Loaded False show ?thesis by (auto simp: script_def)
        next
          case (Inr v)
          obtain de dg where v: "v = (de, dg)" by (cases v)
          let ?t1 = "tab1 de dg growth_dict info_dict"
          let ?t2 = "tab2 de env_dict info_dict sel"
          let ?t3 = "tab3 dg growth_dict info_dict"
          from assms l \<open>r = Inr ld\<close> Loaded False Inr v
          have "MetricOptimalEC a \<in>
              set (fst (and_then (map ErrorBox msgs, None) (and_then ?t1 (and_then ?t2 ?t3))))"
            by (simp add: script_def finish_def)
          with and_then_elements [of "(map ErrorBox msgs, None)" "and_then ?t1 (and_then ?t2 ?t3)"]
            and_then_elements [of ?t1 "and_then ?t2 ?t3"] and_then_elements [of ?t2 ?t3]
            tab2_metric [of a de env_dict info_dict sel] tab3_metric [of a dg growth_dict info_dict]
          have "MetricOptimalEC a \<in> set (fst ?t1)" by auto
          then show ?thesis by (rule tab1_metric)
        qed
      qed
    qed
  qed
qed

lemma max_from_member: "max_from b rest \<in> set (b # rest)"
  by (induction rest arbitrary: b) (auto split: if_splits)

lemma max_from_greatest:
  assumes "\<forall>kv\<in>set (b # rest). snd kv \<noteq> NaN"
  shows "\<forall>kv\<in>set (b # rest). \<not> num_gt (snd kv) (snd (max_from b rest))"
  using assms
proof (induction rest arbitrary: b)
  case Nil
  then show ?case by (cases "snd b") auto
next
  case (Cons kv rest)
  obtain x where b: "snd b = Fin x" using Cons.prems by (cases "snd b") auto
  obtain y where kv: "snd kv = Fin y" using Cons.prems by (cases "snd kv") auto
  show ?case
  proof (cases "num_gt (snd kv) (snd b)")
    case True
    from Cons.prems have "\<forall>p\<in>set (kv # rest). snd p \<noteq> NaN" by simp
    from Cons.IH [OF this] have ih: "\<forall>p\<in>set (kv # rest). \<not> num_gt (snd p) (snd (max_from kv rest))" .
    then have "\<not> num_gt (snd kv) (snd (max_from kv rest))" by simp
    moreover obtain z where z: "snd (max_from kv rest) = Fin z"
      using max_from_member [of kv rest] Cons.prems by (cases "snd (max_from kv rest)") auto
    ultimately have "\<not> num_gt (snd b) (snd (max_from kv rest))"
      using True by (simp add: b kv)
    with ih True show ?thesis by simp
  next
    case False
    from Cons.prems have "\<forall>p\<in>set (b # rest). snd p \<noteq> NaN" by simp
    from Cons.IH [OF this] have ih: "\<forall>p\<in>set (b # rest). \<not> num_gt (snd p) (snd (max_from b rest))" .
    then have "\<not> num_gt (snd b) (snd (max_from b rest))" by simp
    moreover obtain z where z: "snd (max_from b rest) = Fin z"
      using max_from_member [of b rest] Cons.prems by (cases "snd (max_from b rest)") auto
    ultimately have "\<not> num_gt (snd kv) (snd (max_from b rest))"
      using False by (simp add: b kv)
    with ih False show ?thesis by simp
  qed
qed

lemma avg_weights_keys: "avg_weights g = Inr avg \<Longrightarrow> map fst avg = map fst g"
  by (induction g arbitrary: avg) (auto split: sum.splits)

text \<open>
  When every school has a mean fresh weight that is a number, the banner names a school
  whose mean no other school's mean exceeds, with that mean and that school's target EC.
\<close>

lemma growth_banner_maximal:
  assumes avg: "avg_weights growth_dict = Inr avg"
    and ne: "growth_dict \<noteq> []"
    and num: "\<forall>kv\<in>set avg. snd kv \<noteq> NaN"
    and keys: "fst ` set growth_dict \<subseteq> fst ` set info_dict"
    and dist: "distinct (map fst growth_dict)"
  shows "\<exists>b i. growth_banner growth_dict info_dict = Inr b \<and>
           (best_school b, best_mean b) \<in> set avg \<and>
           (\<forall>kv\<in>set avg. \<not> num_gt (snd kv) (best_mean b)) \<and>
           map_of info_dict (best_school b) = Some i \<and> best_ec b = ec_target i"
proof -
  from avg_weights_keys [OF avg] ne obtain kv rest where a: "avg = kv # rest"
    by (cases avg) auto
  let ?m = "max_from kv rest"
  have mem: "?m \<in> set avg" unfolding a by (rule max_from_member)
  from num have gr: "\<forall>p\<in>set avg. \<not> num_gt (snd p) (snd ?m)"
    unfolding a by (rule max_from_greatest)
  have mk: "max_key avg = Inr (fst ?m)" by (simp add: max_key_def a)
  from dist avg_weights_keys [OF avg] have "distinct (map fst avg)" by simp
  moreover from mem have "(fst ?m, snd ?m) \<in> set avg" by simp
  ultimately have "map_of avg (fst ?m) = Some (snd ?m)" by (rule map_of_is_SomeI)
  then have la: "lookup avg (fst ?m) = Inr (snd ?m)"
    by (simp add: lookup_def)
  from mem have "fst ?m \<in> fst ` set avg" by (rule imageI)
  also have "fst ` set avg = fst ` set growth_dict"
    using avg_weights_keys [OF avg] by (metis set_map)
  finally have "fst ?m \<in> fst ` set info_dict" using keys by auto
  then obtain i where i: "map_of info_dict (fst ?m) = Some i"
    by (cases "map_of info_dict (fst ?m)") (auto simp: map_of_eq_None_iff)
  then have "lookup info_dict (fst ?m) = Inr i" by (simp add: lookup_def)
  then have "growth_banner growth_dict info_dict =
      Inr \<lparr>best_ec = ec_target i, best_school = fst ?m, best_mean = snd ?m\<rparr>"
    by (simp add: growth_banner_def avg mk la)
  with mem gr i show ?thesis by auto
qed

section \<open>Running the definitions on the sample data\<close>

lemmas str_defs = songdo_def haneul_def ara_def dongsan_def sel_all_def ext_csv_def ext_xlsx_def
  col_time_def col_school_def col_temperature_def col_humidity_def col_ph_def col_ec_def
  col_weight_def col_leaves_def col_height_def

lemmas sample_defs = sample_readings_def sample_plants_def csv_entry_def workbook_entry_def
  sample_sheets_def sample_files_def nfc_id_def to_datetime_id_def sample_env_def
  sample_growth_def partial_files_def blank_weights_def blank_first_growth_def
  blank_first_files_def

lemmas load_defs = sublist_code prefix_code suffix_to_prefix labels_def school_info_def
  getitem_def coerce_time_def read_env_def read_excel_def load_data_def

lemmas script_defs = lookup_def assign_def uniq_def column_or_nan_def concat_frames_def
  tag_frames_def view_filter_def mean_def column_mean_def max_key_def growth_banner_def
  and_then_def tab1_def env_bars_def plot_column_def school_series_def tab2_def growth_bars_def tab3_def
  finish_def

lemma sample_load:
  "load_data nfc_id to_datetime_id (Directory sample_files) =
     ([], Inr (Loaded sample_env sample_growth school_info))"
  by (simp add: str_defs sample_defs load_defs)

lemma sample_scenario: "scenario nfc_id to_datetime_id sample_files 2 3"
  by (simp add: str_defs sample_defs load_defs scenario_def one_sheet_per_school_def csv_of_def)

lemma sample_run_metric:
  "MetricOptimalEC optimal_ec_text
     \<in> set (elements (script nfc_id to_datetime_id (Directory sample_files) haneul))"
  unfolding script_def sample_load
  by (simp add: str_defs sample_defs script_defs school_info_def getitem_def)

lemma partial_load:
  "load_data nfc_id to_datetime_id (Directory partial_files) =
     ([], Inr (Loaded [(songdo, sample_readings)] [(songdo, sample_plants 3)] school_info))"
  by (simp add: str_defs sample_defs load_defs)

lemma partial_run:
  "views (script nfc_id to_datetime_id (Directory partial_files) sel_all) \<noteq> None"
  "elements (script nfc_id to_datetime_id (Directory partial_files) sel_all) =
     [MetricTotal 3, MetricTemperature (Fin 21), MetricHumidity (Fin 52),
      MetricOptimalEC optimal_ec_text]"
  "outcome (script nfc_id to_datetime_id (Directory partial_files) sel_all) = Uncaught KeyError"
  unfolding script_def partial_load
  by (simp_all add: str_defs sample_defs script_defs school_info_def getitem_def)

lemma blank_first_load:
  "load_data nfc_id to_datetime_id (Directory blank_first_files) =
     ([], Inr (Loaded sample_env_in_label_order blank_first_growth school_info))"
  by (simp add: str_defs sample_defs load_defs sample_env_in_label_order_def)

lemma blank_first_run:
  "BestSchool \<lparr>best_ec = 1, best_school = songdo, best_mean = NaN\<rparr>
     \<in> set (elements (script nfc_id to_datetime_id (Directory blank_first_files) sel_all))"
  unfolding script_def blank_first_load
  by (simp add: str_defs sample_defs script_defs school_info_def getitem_def
      sample_env_in_label_order_def)

section \<open>The claims\<close>




text \<open>
  C2. If the data directory does not exist, \<open>load_data\<close> reports the error and returns no
  data, and the run ends there: the only element shown is the error box, the view filter is
  never computed, and nothing is rendered. The run ends by the \<open>ValueError\<close> of unpacking
  the pair \<open>(None, None)\<close> into three names, before the guard is reached.
\<close>

theorem missing_directory_halts:
  "load_data nfc to_datetime Absent = ([DataFolderNotFound], Inr NoData) \<and>
   script nfc to_datetime Absent selected_school =
     \<lparr>elements = [ErrorBox DataFolderNotFound], views = None, outcome = Uncaught ValueError\<rparr>"
  by (simp add: load_data_def script_def)

text \<open>
  C3 (as stated, refuted). With data for one school only, the data is incomplete, yet the
  guard lets the run pass: nothing is reported, the view filter is computed, the four
  metrics are rendered, and the run ends later with a \<open>KeyError\<close>.
\<close>

theorem incomplete_data_passes_guard:
  "load_data nfc_id to_datetime_id (Directory partial_files) =
     ([], Inr (Loaded [(songdo, sample_readings)] [(songdo, sample_plants 3)] school_info)) \<and>
   \<not> complete [(songdo, sample_readings)] [(songdo, sample_plants 3)] \<and>
   views (script nfc_id to_datetime_id (Directory partial_files) sel_all) \<noteq> None \<and>
   elements (script nfc_id to_datetime_id (Directory partial_files) sel_all) =
     [MetricTotal 3, MetricTemperature (Fin 21), MetricHumidity (Fin 52),
      MetricOptimalEC optimal_ec_text] \<and>
   outcome (script nfc_id to_datetime_id (Directory partial_files) sel_all) = Uncaught KeyError"
proof -
  have "\<not> complete [(songdo, sample_readings)] [(songdo, sample_plants 3)]"
    by (simp add: complete_def labels_def school_info_def str_defs)
  with partial_load partial_run show ?thesis by simp
qed

text \<open>
  C3 (amended). Whenever the load returns and the environmental mapping or the growth
  mapping is empty (no school has an environmental table, or no school has a growth
  table), this is reported and the run stops before any filtering or rendering.
\<close>

theorem empty_mapping_stops_run:
  assumes "load_data nfc to_datetime data_path = (msgs, Inr (Loaded env_dict growth_dict info_dict))"
    and "env_dict = [] \<or> growth_dict = []"
  shows "script nfc to_datetime data_path selected_school =
     \<lparr>elements = map ErrorBox msgs @ [ErrorBox DataFilesInsufficient], views = None,
      outcome = Stopped\<rparr>"
  using assms by (auto simp: script_def)

theorem empty_mapping_stops_run_witness:
  "load_data nfc_id to_datetime_id (Directory [csv_entry songdo]) =
     ([], Inr (Loaded [(songdo, sample_readings)] [] school_info)) \<and>
   script nfc_id to_datetime_id (Directory [csv_entry songdo]) sel_all =
     \<lparr>elements = [ErrorBox DataFilesInsufficient], views = None, outcome = Stopped\<rparr>"
proof -
  have l: "load_data nfc_id to_datetime_id (Directory [csv_entry songdo]) =
     ([], Inr (Loaded [(songdo, sample_readings)] [] school_info))"
    by (simp add: str_defs sample_defs load_defs)
  from empty_mapping_stops_run [OF l, of sel_all] l show ?thesis by simp
qed

text \<open>
  C4 (as stated, refuted). The claim speaks of every selection. The sidebar offers all four
  labels whatever was loaded, and the guard lets data for one school pass: selecting
  another school then raises \<open>KeyError\<close> in the view filter, and there is no output table.
\<close>

theorem selected_school_without_table:
  "load_data nfc_id to_datetime_id (Directory partial_files) =
     ([], Inr (Loaded [(songdo, sample_readings)] [(songdo, sample_plants 3)] school_info)) \<and>
   haneul \<in> set labels \<and> haneul \<noteq> sel_all \<and>
   map_of [(songdo, sample_readings)] haneul = None \<and>
   view_filter [(songdo, sample_readings)] [(songdo, sample_plants 3)] haneul = Inl KeyError \<and>
   script nfc_id to_datetime_id (Directory partial_files) haneul =
     \<lparr>elements = [], views = None, outcome = Uncaught KeyError\<rparr>"
proof -
  have l: "haneul \<in> set labels" "haneul \<noteq> sel_all"
    "map_of [(songdo, sample_readings)] haneul = None"
    by (simp_all add: labels_def school_info_def str_defs)
  have v: "view_filter [(songdo, sample_readings)] [(songdo, sample_plants 3)] haneul =
      Inl KeyError"
    by (simp add: view_filter_def lookup_def str_defs)
  have "script nfc_id to_datetime_id (Directory partial_files) haneul =
     \<lparr>elements = [], views = None, outcome = Uncaught KeyError\<rparr>"
    unfolding script_def partial_load by (simp add: v)
  with partial_load l v show ?thesis by simp
qed

text \<open>
  C4 (amended). For the selection "all", each output table has as many rows as the tables
  of the corresponding mapping have together, and each of its columns is the
  concatenation, in mapping order, of that column of the per-school tables; for the
  selection of a school that has a table in both mappings, each output table has exactly
  as many rows as that school's table, and the same columns. Apart from the source column
  no value is dropped, added or moved. In both cases the filter returns.
\<close>

theorem view_filter_row_counts:
  "(env_dict \<noteq> [] \<and> growth_dict \<noteq> [] \<longrightarrow>
      (\<exists>display_env display_growth.
         view_filter env_dict growth_dict sel_all = Inr (display_env, display_growth) \<and>
         nrows display_env = sum_list (map (\<lambda>(s, df). nrows df) env_dict) \<and>
         nrows display_growth = sum_list (map (\<lambda>(s, df). nrows df) growth_dict) \<and>
         (\<forall>c. c \<noteq> col_school \<longrightarrow>
            column_or_nan c display_env = concat (map (\<lambda>(s, df). column_or_nan c df) env_dict) \<and>
            column_or_nan c display_growth =
              concat (map (\<lambda>(s, df). column_or_nan c df) growth_dict)))) \<and>
   (selected_school \<noteq> sel_all \<and> map_of env_dict selected_school = Some edf \<and>
    map_of growth_dict selected_school = Some gdf \<longrightarrow>
      (\<exists>display_env display_growth.
         view_filter env_dict growth_dict selected_school = Inr (display_env, display_growth) \<and>
         nrows display_env = nrows edf \<and> nrows display_growth = nrows gdf \<and>
         (\<forall>c. c \<noteq> col_school \<longrightarrow>
            column_or_nan c display_env = column_or_nan c edf \<and>
            column_or_nan c display_growth = column_or_nan c gdf)))"
proof (intro conjI impI)
  assume ne: "env_dict \<noteq> [] \<and> growth_dict \<noteq> []"
  then obtain de dg where e: "concat_frames (tag_frames env_dict) = Inr de"
    and g: "concat_frames (tag_frames growth_dict) = Inr dg"
    using concat_frames_total [of "tag_frames env_dict"]
      concat_frames_total [of "tag_frames growth_dict"]
    by (auto simp: tag_frames_Nil)
  then have "view_filter env_dict growth_dict sel_all = Inr (de, dg)"
    by (simp add: view_filter_def)
  moreover have "\<forall>c. c \<noteq> col_school \<longrightarrow>
      column_or_nan c de = concat (map (\<lambda>(s, df). column_or_nan c df) env_dict) \<and>
      column_or_nan c dg = concat (map (\<lambda>(s, df). column_or_nan c df) growth_dict)"
    by (simp add: column_or_nan_concat [OF e] column_or_nan_concat [OF g]
        columns_tag_frames_other)
  ultimately show "\<exists>display_env display_growth.
         view_filter env_dict growth_dict sel_all = Inr (display_env, display_growth) \<and>
         nrows display_env = sum_list (map (\<lambda>(s, df). nrows df) env_dict) \<and>
         nrows display_growth = sum_list (map (\<lambda>(s, df). nrows df) growth_dict) \<and>
         (\<forall>c. c \<noteq> col_school \<longrightarrow>
            column_or_nan c display_env = concat (map (\<lambda>(s, df). column_or_nan c df) env_dict) \<and>
            column_or_nan c display_growth =
              concat (map (\<lambda>(s, df). column_or_nan c df) growth_dict))"
    using nrows_concat_frames [OF e] nrows_concat_frames [OF g]
    by (simp add: nrows_tag_frames)
next
  assume "selected_school \<noteq> sel_all \<and> map_of env_dict selected_school = Some edf \<and>
    map_of growth_dict selected_school = Some gdf"
  then show "\<exists>display_env display_growth.
         view_filter env_dict growth_dict selected_school = Inr (display_env, display_growth) \<and>
         nrows display_env = nrows edf \<and> nrows display_growth = nrows gdf \<and>
         (\<forall>c. c \<noteq> col_school \<longrightarrow>
            column_or_nan c display_env = column_or_nan c edf \<and>
            column_or_nan c display_growth = column_or_nan c gdf)"
    by (simp add: view_filter_def lookup_def nrows_assign column_or_nan_assign_other)
qed

theorem view_filter_row_counts_witness:
  "sample_env \<noteq> [] \<and> sample_growth \<noteq> [] \<and> haneul \<noteq> sel_all \<and>
   map_of sample_env haneul = Some sample_readings \<and>
   map_of sample_growth haneul = Some (sample_plants 7) \<and>
   (\<exists>display_env display_growth.
      view_filter sample_env sample_growth sel_all = Inr (display_env, display_growth) \<and>
      nrows display_env = 8 \<and> nrows display_growth = 12) \<and>
   (\<exists>display_env display_growth.
      view_filter sample_env sample_growth haneul = Inr (display_env, display_growth) \<and>
      nrows display_env = 2 \<and> nrows display_growth = 3)"
proof -
  have h: "sample_env \<noteq> [] \<and> sample_growth \<noteq> []" "haneul \<noteq> sel_all"
    "map_of sample_env haneul = Some sample_readings"
    "map_of sample_growth haneul = Some (sample_plants 7)"
    by (simp_all add: str_defs sample_defs)
  have n: "sum_list (map (\<lambda>(s, df). nrows df) sample_env) = 8"
    "sum_list (map (\<lambda>(s, df). nrows df) sample_growth) = 12"
    "nrows sample_readings = 2" "nrows (sample_plants 7) = 3"
    by (simp_all add: sample_defs)
  from view_filter_row_counts [of sample_env sample_growth haneul sample_readings "sample_plants 7"]
    h n show ?thesis
    by metis
qed

text \<open>
  C5. In the scenario (one \<open>.csv\<close> file per school with \<open>N\<close> rows, one workbook with four sheets
  of \<open>M\<close> rows, one per school) the loader returns, both mappings have exactly four entries,
  one per label, with tables of \<open>N\<close> and \<open>M\<close> rows, and the selection "all" yields tables of
  \<open>4N\<close> and \<open>4M\<close> rows.
\<close>

theorem scenario_loads_four_tables:
  assumes sc: "scenario nfc to_datetime files N M"
  shows "\<exists>env_dict growth_dict display_env display_growth.
     load_data nfc to_datetime (Directory files) =
       ([], Inr (Loaded env_dict growth_dict school_info)) \<and>
     length env_dict = 4 \<and> length growth_dict = 4 \<and>
     fst ` set env_dict = set labels \<and> fst ` set growth_dict = set labels \<and>
     (\<forall>df\<in>snd ` set env_dict. nrows df = N) \<and>
     (\<forall>df\<in>snd ` set growth_dict. nrows df = M) \<and>
     view_filter env_dict growth_dict sel_all = Inr (display_env, display_growth) \<and>
     nrows display_env = 4 * N \<and> nrows display_growth = 4 * M"
proof -
  from sc have A: "\<forall>s\<in>set labels. \<exists>f\<in>set files. csv_of nfc s f"
    by (auto simp: scenario_def list_all_iff dest: filter_one)
  from sc have B: "\<forall>f\<in>set files. suffix ext_csv (nfc (name f)) \<longrightarrow>
      (\<exists>df. read_env to_datetime f = Inr df \<and> nrows df = N)"
  proof (intro ballI impI)
    fix f assume f: "f \<in> set files" "suffix ext_csv (nfc (name f))"
    with sc have "case csv f of Inl e \<Rightarrow> False
        | Inr df \<Rightarrow> nrows df = N \<and> \<not> isl (coerce_time to_datetime df)"
      by (simp add: scenario_def list_all_iff)
    then obtain df where c: "csv f = Inr df" "nrows df = N"
      and "\<not> isl (coerce_time to_datetime df)"
      by (cases "csv f") auto
    then obtain df' where "coerce_time to_datetime df = Inr df'"
      by (cases "coerce_time to_datetime df") auto
    with c nrows_coerce_time [OF this]
    show "\<exists>df. read_env to_datetime f = Inr df \<and> nrows df = N"
      by (simp add: read_env_def)
  qed
  from sc obtain x sheets where x: "filter (\<lambda>f. suffix ext_xlsx (nfc (name f))) files = [x]"
    and xs: "xlsx x = Inr sheets" and os: "one_sheet_per_school nfc M sheets"
    by (auto simp: scenario_def split: list.splits sum.splits)
  have only: "f = x" if "f \<in> set files" "suffix ext_xlsx (nfc (name f))" for f
  proof -
    from that have "f \<in> set (filter (\<lambda>f. suffix ext_xlsx (nfc (name f))) files)" by simp
    then show ?thesis by (simp add: x)
  qed
  have "x \<in> set (filter (\<lambda>f. suffix ext_xlsx (nfc (name f))) files)" by (simp add: x)
  then have xin: "x \<in> set files" and xsuf: "suffix ext_xlsx (nfc (name x))" by simp_all
  with xs have wb: "workbook_of nfc x sheets"
    by (simp add: workbook_of_def xlsx_not_csv)
  have D: "\<exists>df. read_excel sheets n = Inr df \<and> nrows df = M" if "n \<in> fst ` set sheets" for n
  proof -
    from read_excel_member [OF that] obtain r where "(n, r) \<in> set sheets"
      "read_excel sheets n = r" by blast
    with os show ?thesis
      by (auto simp: one_sheet_per_school_def list_all_iff split: sum.splits)
  qed
  have E: "\<forall>s\<in>set labels. \<exists>n\<in>fst ` set sheets. sublist s (nfc n)"
  proof
    fix s assume "s \<in> set labels"
    with os have "length (filter (\<lambda>(n, r). sublist s (nfc n)) sheets) = Suc 0"
      by (simp add: one_sheet_per_school_def list_all_iff)
    from filter_one [OF this] obtain n r where m: "(n, r) \<in> set sheets"
      and sub: "sublist s (nfc n)"
      by auto
    from m have "fst (n, r) \<in> fst ` set sheets" by (rule imageI)
    then have "n \<in> fst ` set sheets" by simp
    with sub show "\<exists>n\<in>fst ` set sheets. sublist s (nfc n)" by (rule bexI)
  qed
  have "\<exists>r. load_files nfc to_datetime files [] [] = Inr r"
  proof (rule load_files_total)
    from B show "\<forall>f\<in>set files. suffix ext_csv (nfc (name f)) \<longrightarrow>
        (\<exists>df. read_env to_datetime f = Inr df)" by blast
    show "\<forall>f\<in>set files. \<not> suffix ext_csv (nfc (name f)) \<and> suffix ext_xlsx (nfc (name f)) \<longrightarrow>
        (\<exists>sheets. xlsx f = Inr sheets \<and> (\<forall>n\<in>fst ` set sheets. \<exists>df. read_excel sheets n = Inr df))"
      using only xs D by blast
  qed
  then obtain env_dict growth_dict
    where lf: "load_files nfc to_datetime files [] [] = Inr (env_dict, growth_dict)"
    by (cases) auto
  from load_files_keys_env [OF lf] A have ke: "fst ` set env_dict = set labels" by auto
  have "{s \<in> set labels. \<exists>f\<in>set files. \<exists>sh. workbook_of nfc f sh \<and>
          (\<exists>n\<in>fst ` set sh. sublist s (nfc n))} = set labels"
    using E wb xin by blast
  with load_files_keys_growth [OF lf] have kg: "fst ` set growth_dict = set labels"
    by simp
  from load_files_distinct [OF lf] have di: "distinct (map fst env_dict)"
    "distinct (map fst growth_dict)" by simp_all
  from keys_length [OF di(1) ke] keys_length [OF di(2) kg]
  have len: "length env_dict = 4" "length growth_dict = 4" .
  have ve: "nrows df = N" if "(s, df) \<in> set env_dict" for s df
    using load_files_values_env [OF lf that] B by (auto simp: csv_of_def)
  have vg: "nrows df = M" if "(s, df) \<in> set growth_dict" for s df
  proof -
    from load_files_values_growth [OF lf that] obtain f sh n
      where "f \<in> set files" "workbook_of nfc f sh" "n \<in> fst ` set sh"
        "read_excel sh n = Inr df" by auto
    moreover from this only [of f] xs have "sh = sheets" by (simp add: workbook_of_def)
    ultimately show ?thesis using D [of n] by simp
  qed
  from len have "env_dict \<noteq> []" "growth_dict \<noteq> []" by auto
  from view_filter_all [OF this] obtain de dg
    where vf: "view_filter env_dict growth_dict sel_all = Inr (de, dg)"
      and ne: "nrows de = sum_list (map (\<lambda>(s, df). nrows df) env_dict)"
      and ng: "nrows dg = sum_list (map (\<lambda>(s, df). nrows df) growth_dict)" by blast
  from ve have "sum_list (map (\<lambda>(s, df). nrows df) env_dict) = length env_dict * N"
    by (intro sum_list_const) auto
  moreover from vg have "sum_list (map (\<lambda>(s, df). nrows df) growth_dict) = length growth_dict * M"
    by (intro sum_list_const) auto
  ultimately have "nrows de = 4 * N" "nrows dg = 4 * M" using ne ng len by simp_all
  with lf ke kg len ve vg vf show ?thesis
    by (auto simp: load_data_def)
qed

theorem scenario_loads_four_tables_witness:
  "scenario nfc_id to_datetime_id sample_files 2 3 \<and>
   load_data nfc_id to_datetime_id (Directory sample_files) =
     ([], Inr (Loaded sample_env sample_growth school_info)) \<and>
   length sample_env = 4 \<and> length sample_growth = 4 \<and>
   (\<exists>display_env display_growth.
      view_filter sample_env sample_growth sel_all = Inr (display_env, display_growth) \<and>
      nrows display_env = 4 * 2 \<and> nrows display_growth = 4 * 3)"
proof -
  from scenario_loads_four_tables [OF sample_scenario] sample_load sample_scenario
  show ?thesis by auto
qed

text \<open>
  C6. After a load that returns the two mappings, every key of either mapping is one of the
  four labels, and whatever the selection, each table that the view filter returns has a
  source column that holds one of the four labels in every row.
\<close>

theorem source_tags_and_keys_are_labels:
  assumes "load_data nfc to_datetime data_path = (msgs, Inr (Loaded env_dict growth_dict info_dict))"
  shows "fst ` set env_dict \<subseteq> set labels \<and> fst ` set growth_dict \<subseteq> set labels \<and>
    set labels = {songdo, haneul, ara, dongsan} \<and>
    (\<forall>selected_school display_env display_growth.
       view_filter env_dict growth_dict selected_school = Inr (display_env, display_growth) \<longrightarrow>
       tagged display_env \<and> tagged display_growth)"
  using load_data_keys [OF assms] view_filter_tagged [of env_dict growth_dict]
  by (auto simp: labels_def school_info_def)

theorem source_tags_and_keys_are_labels_witness:
  "load_data nfc_id to_datetime_id (Directory sample_files) =
     ([], Inr (Loaded sample_env sample_growth school_info)) \<and>
   fst ` set sample_env \<subseteq> set labels \<and> fst ` set sample_growth \<subseteq> set labels \<and>
   view_filter sample_env sample_growth haneul =
     Inr (assign col_school (Text haneul) sample_readings,
          assign col_school (Text haneul) (sample_plants 7)) \<and>
   tagged (assign col_school (Text haneul) sample_readings) \<and>
   tagged (assign col_school (Text haneul) (sample_plants 7))"
proof -
  have v: "view_filter sample_env sample_growth haneul =
     Inr (assign col_school (Text haneul) sample_readings,
          assign col_school (Text haneul) (sample_plants 7))"
    by (simp add: view_filter_def lookup_def sample_env_def sample_growth_def str_defs)
  from source_tags_and_keys_are_labels [OF sample_load] v sample_load show ?thesis
    by blast
qed

text \<open>
  C7. The view filter changes no table that existed before it ran: in the store after the
  filter every earlier object is what it was, so both mappings stand for the same tables as
  before. The two tables it returns are new objects, they carry the source column, and they
  hold what the filter computes from the cached tables.
\<close>

theorem view_filter_keeps_cached_tables:
  assumes "view_filter_refs env_dict growth_dict selected_school h =
      Inr ((display_env, display_growth), h')"
    and "\<forall>r\<in>snd ` set env_dict \<union> snd ` set growth_dict. r < length h"
  shows "(\<forall>r<length h. h' ! r = h ! r) \<and>
    deref h' env_dict = deref h env_dict \<and> deref h' growth_dict = deref h growth_dict \<and>
    length h \<le> display_env \<and> display_env < length h' \<and>
    length h \<le> display_growth \<and> display_growth < length h' \<and>
    view_filter (deref h env_dict) (deref h growth_dict) selected_school =
      Inr (h' ! display_env, h' ! display_growth) \<and>
    col_school \<in> fst ` set (columns (h' ! display_env)) \<and>
    col_school \<in> fst ` set (columns (h' ! display_growth))"
proof -
  have "\<exists>ext. h' = h @ ext \<and> length h \<le> display_env \<and> display_env < length h' \<and>
      length h \<le> display_growth \<and> display_growth < length h' \<and> display_env \<noteq> display_growth \<and>
      view_filter (deref h env_dict) (deref h growth_dict) selected_school =
        Inr (h' ! display_env, h' ! display_growth)"
  proof (cases "selected_school = sel_all")
    case True
    with assms show ?thesis using view_filter_refs_all by simp
  next
    case False
    with assms show ?thesis using view_filter_refs_one by simp
  qed
  then obtain ext where ext: "h' = h @ ext"
    and rest: "length h \<le> display_env" "display_env < length h'"
      "length h \<le> display_growth" "display_growth < length h'"
      "view_filter (deref h env_dict) (deref h growth_dict) selected_school =
        Inr (h' ! display_env, h' ! display_growth)" by blast
  from assms(2) have "deref h' env_dict = deref h env_dict"
    "deref h' growth_dict = deref h growth_dict"
    unfolding ext by (simp_all add: deref_append)
  moreover have "\<forall>r<length h. h' ! r = h ! r" by (simp add: ext nth_append)
  ultimately show ?thesis
    using rest view_filter_school_column [OF rest(5)] by simp
qed

theorem view_filter_keeps_cached_tables_witness:
  "view_filter_refs [(songdo, 0)] [(songdo, 1)] songdo [sample_readings, sample_plants 3] =
     Inr ((2, 3),
          [sample_readings, sample_plants 3,
           assign col_school (Text songdo) sample_readings,
           assign col_school (Text songdo) (sample_plants 3)]) \<and>
   list_all (\<lambda>r. r < length [sample_readings, sample_plants 3])
     (map snd [(songdo, 0::nat)] @ map snd [(songdo, 1)]) \<and>
   deref [sample_readings, sample_plants 3,
           assign col_school (Text songdo) sample_readings,
           assign col_school (Text songdo) (sample_plants 3)] [(songdo, 0)] =
     [(songdo, sample_readings)] \<and>
   view_filter [(songdo, sample_readings)] [(songdo, sample_plants 3)] songdo =
     Inr (assign col_school (Text songdo) sample_readings,
          assign col_school (Text songdo) (sample_plants 3))"
proof -
  have r: "view_filter_refs [(songdo, 0)] [(songdo, 1)] songdo [sample_readings, sample_plants 3] =
     Inr ((2, 3),
          [sample_readings, sample_plants 3,
           assign col_school (Text songdo) sample_readings,
           assign col_school (Text songdo) (sample_plants 3)])"
    by (simp add: view_filter_refs_def lookup_def assign_ref_def new_frame_def songdo_def sel_all_def)
  have v: "\<forall>r\<in>snd ` set [(songdo, 0::nat)] \<union> snd ` set [(songdo, 1)].
      r < length [sample_readings, sample_plants 3]" by simp
  from view_filter_keeps_cached_tables [OF r v] r v show ?thesis
    by (simp add: deref_def)
qed

text \<open>
  C9 (the code differs). The banner keeps the first school unless a later mean is strictly
  greater, and no number is greater than NaN: when the first sheet has no fresh weight at
  all, its school is reported as the best, with the mean NaN, although other schools have a
  mean that is a number.
\<close>

theorem blank_weights_reported_best:
  "column_mean blank_weights col_weight = Inr NaN \<and>
   column_mean (sample_plants 7) col_weight = Inr (Fin (15 / 2)) \<and>
   growth_banner blank_first_growth school_info =
     Inr \<lparr>best_ec = 1, best_school = songdo, best_mean = NaN\<rparr> \<and>
   load_data nfc_id to_datetime_id (Directory blank_first_files) =
     ([], Inr (Loaded sample_env_in_label_order blank_first_growth school_info)) \<and>
   BestSchool \<lparr>best_ec = 1, best_school = songdo, best_mean = NaN\<rparr>
     \<in> set (elements (script nfc_id to_datetime_id (Directory blank_first_files) sel_all))"
proof -
  have "column_mean blank_weights col_weight = Inr NaN"
    "column_mean (sample_plants 7) col_weight = Inr (Fin (15 / 2))"
    "growth_banner blank_first_growth school_info =
       Inr \<lparr>best_ec = 1, best_school = songdo, best_mean = NaN\<rparr>"
    by (simp_all add: str_defs sample_defs script_defs school_info_def getitem_def)
  with blank_first_load blank_first_run show ?thesis by simp
qed

text \<open>
  C10. Whatever the data directory, the library functions and the selection, an optimal-EC
  metric that a run shows is the literal of the script: two runs on any two datasets show
  the same value.
\<close>

theorem optimal_ec_metric_is_constant:
  assumes "MetricOptimalEC a \<in> set (elements (script nfc1 to_datetime1 data_path1 selected1))"
    and "MetricOptimalEC b \<in> set (elements (script nfc2 to_datetime2 data_path2 selected2))"
  shows "a = b \<and> a = optimal_ec_text"
  using script_metric [OF assms(1)] script_metric [OF assms(2)] by simp

theorem optimal_ec_metric_is_constant_witness:
  "MetricOptimalEC optimal_ec_text
     \<in> set (elements (script nfc_id to_datetime_id (Directory sample_files) haneul)) \<and>
   MetricOptimalEC optimal_ec_text
     \<in> set (elements (script nfc_id to_datetime_id (Directory partial_files) sel_all)) \<and>
   optimal_ec_text = [50, 46, 48, 32, 40, 54616, 45720, 44256, 41]"
proof -
  have p: "MetricOptimalEC optimal_ec_text
     \<in> set (elements (script nfc_id to_datetime_id (Directory partial_files) sel_all))"
    by (simp add: partial_run)
  from optimal_ec_metric_is_constant [OF sample_run_metric p] sample_run_metric p
  show ?thesis by (simp add: optimal_ec_text_def)
qed

end
